theory Spec2Isabelle
  imports Complex_Main "HOL-Library.Multiset" "HOL-Library.Char_ord" "HOL-Library.List_Lexorder"
begin

section \<open>The stored documents\<close>

text \<open>
  The report service reads four collections of one MongoDB database. A collection is the
  list of its documents in natural order. The records below carry the fields that the five
  pipelines of \<^verbatim>\<open>controller/report.controller.js\<close> read; field names are the
  schema's names behind a short prefix, since several documents share \<^verbatim>\<open>_id\<close>,
  \<^verbatim>\<open>total_price\<close> and \<^verbatim>\<open>status\<close>.

  An \<^verbatim>\<open>ObjectId\<close> is a number and a \<^verbatim>\<open>Date\<close> is its count of milliseconds
  since 1970-01-01T00:00:00Z. A schema \<^verbatim>\<open>Number\<close> is a double; a stored value is
  the real that the double denotes, so comparing two stored values is exact. Adding them
  is not: the sum of two doubles is rounded to a double, and which double a longer sum
  comes to depends on how the store adds. No pipeline below adds Numbers with \<open>+\<close>;
  each takes the store's \<^verbatim>\<open>$sum\<close> as a parameter (section on the aggregation
  stages).
\<close>

type_synonym objectid = nat
type_synonym date = int

text \<open>\<^verbatim>\<open>models/order.model.js\<close>, OrderSchema with \<^verbatim>\<open>timestamps: true\<close>.\<close>

record order =
  o_id :: objectid
  o_customer_id :: objectid
  o_items :: "objectid list"
  o_total_price :: real
  o_status :: string
  o_createdAt :: date

text \<open>OrderItemsSchema: the schema has exactly these five paths besides \<^verbatim>\<open>_id\<close>.\<close>

record orderitem =
  oi_id :: objectid
  oi_order_id :: objectid
  oi_product_id :: string
  oi_quantity :: real
  oi_unit_price :: real
  oi_total_price :: real

text \<open>
  Modelled from the spec: the Customer model that \<^verbatim>\<open>ref: "Customer"\<close> names is not
  among the sources. A document of the \<^verbatim>\<open>customers\<close> collection (joined by the
  order-status and the user-order report) has an identifier, a full name, an email and a
  phone, which are the four paths those pipelines project.
\<close>

record customer =
  c_id :: objectid
  c_fullName :: string
  c_email :: string
  c_phone :: string

text \<open>
  Modelled from the spec: no model of the \<^verbatim>\<open>users\<close> collection is among the
  sources. The daily report joins it by \<^verbatim>\<open>_id\<close> and reads \<^verbatim>\<open>name\<close> off the
  joined document.
\<close>

record usr =
  u_id :: objectid
  u_name :: string

record store =
  orders :: "order list"
  orderitems :: "orderitem list"
  customers :: "customer list"
  users :: "usr list"

text \<open>
  A field path read off an order item, as the aggregation reads it: a path the document
  does not have is missing (\<open>None\<close>).
\<close>

datatype bson = BId objectid | BStr string | BNum real

definition orderitem_field :: "orderitem \<Rightarrow> string \<Rightarrow> bson option" where
  "orderitem_field i path =
     (if path = ''_id'' then Some (BId (oi_id i))
      else if path = ''order_id'' then Some (BId (oi_order_id i))
      else if path = ''product_id'' then Some (BStr (oi_product_id i))
      else if path = ''quantity'' then Some (BNum (oi_quantity i))
      else if path = ''unit_price'' then Some (BNum (oi_unit_price i))
      else if path = ''total_price'' then Some (BNum (oi_total_price i))
      else None)"

section \<open>Aggregation stages\<close>

text \<open>\<^verbatim>\<open>$match: { status: { $in: [...] } }\<close>\<close>

definition status_in :: "string list \<Rightarrow> order \<Rightarrow> bool" where
  "status_in allowed ord = (o_status ord \<in> set allowed)"

text \<open>
  \<^verbatim>\<open>$lookup\<close>: the documents of the foreign collection whose foreign field equals
  the local field, in the foreign collection's order. When the local field is an array,
  a foreign document matches when its field equals some element of the array.
\<close>

definition lookup :: "'f list \<Rightarrow> ('f \<Rightarrow> 'k) \<Rightarrow> 'k \<Rightarrow> 'f list" where
  "lookup foreign foreignField k = filter (\<lambda>f. foreignField f = k) foreign"

definition lookup_array :: "'f list \<Rightarrow> ('f \<Rightarrow> 'k) \<Rightarrow> 'k list \<Rightarrow> 'f list" where
  "lookup_array foreign foreignField ks = filter (\<lambda>f. foreignField f \<in> set ks) foreign"

text \<open>\<^verbatim>\<open>$arrayElemAt: [array, 0]\<close>: missing when the array is empty.\<close>

definition arrayElemAt0 :: "'a list \<Rightarrow> 'a option" where
  "arrayElemAt0 xs = (case xs of [] \<Rightarrow> None | x # _ \<Rightarrow> Some x)"

text \<open>
  \<^verbatim>\<open>$unwind\<close>: one output document per element of the array field; a document
  whose array is empty is dropped.
\<close>

definition unwind :: "('d \<Rightarrow> 'e list) \<Rightarrow> 'd list \<Rightarrow> ('d \<times> 'e) list" where
  "unwind field docs = concat (map (\<lambda>d. map (Pair d) (field d)) docs)"

text \<open>
  \<^verbatim>\<open>$group\<close>: one group per distinct key, holding the documents with that key in
  arrival order; groups are listed by the first arrival of their key.
\<close>

fun groupBy :: "('d \<Rightarrow> 'k) \<Rightarrow> 'd list \<Rightarrow> ('k \<times> 'd list) list" where
  "groupBy key [] = []"
| "groupBy key (d # ds) =
     (key d, d # filter (\<lambda>e. key e = key d) ds) # groupBy key (filter (\<lambda>e. key e \<noteq> key d) ds)"

text \<open>The accumulators \<^verbatim>\<open>$first\<close> and \<^verbatim>\<open>$max\<close>; null (\<open>None\<close>) on no value.\<close>

definition acc_first :: "'a list \<Rightarrow> 'a option" where
  "acc_first xs = (case xs of [] \<Rightarrow> None | x # _ \<Rightarrow> Some x)"

definition acc_max :: "'a::linorder list \<Rightarrow> 'a option" where
  "acc_max xs = (case xs of [] \<Rightarrow> None | x # ys \<Rightarrow> Some (fold max ys x))"

text \<open>
  \<^verbatim>\<open>$sum\<close> over Numbers, as an accumulator of \<^verbatim>\<open>$group\<close> and as an
  expression over an array: the store's own summation of doubles, which is no code of the
  service. It is the parameter \<open>sum_op\<close> of every pipeline and handler that
  uses it: \<open>sum_op vs\<close> is the Number that \<^verbatim>\<open>$sum\<close> returns on the values
  \<open>vs\<close>, listed in arrival order. Nothing is assumed of it, so every statement below
  holds whatever the store's arithmetic is; with exact addition it is \<open>sum_list\<close>.
  \<^verbatim>\<open>$sum: 1\<close> counts documents, and a count is a natural number.
\<close>

type_synonym summation = "real list \<Rightarrow> real"

text \<open>
  \<^verbatim>\<open>$sort\<close> by one key, ascending (\<open>1\<close>) or descending (\<open>-1\<close>). Documents
  with equal keys keep their arrival order.
\<close>

definition sortAsc :: "('d \<Rightarrow> 'k::linorder) \<Rightarrow> 'd list \<Rightarrow> 'd list" where
  "sortAsc key docs = sort_key key docs"

definition sortDesc :: "('d \<Rightarrow> 'k::linorder) \<Rightarrow> 'd list \<Rightarrow> 'd list" where
  "sortDesc key docs = rev (sort_key key (rev docs))"

subsection \<open>\<^verbatim>\<open>$dateToString\<close>\<close>

text \<open>
  The UTC calendar date of a timestamp (proleptic Gregorian calendar; years run from
  1 March, in eras of 400 years of 146097 days), then the format
  string: \<^verbatim>\<open>%Y\<close> is the year on four digits, \<^verbatim>\<open>%m\<close> and \<^verbatim>\<open>%d\<close>
  month and day on two. The store refuses a year outside 0..9999 and an unknown
  specifier; the aggregation then fails as a whole.
\<close>

definition era :: "int \<Rightarrow> int" where
  "era days = (days + 719468) div 146097"

definition dayOfEra :: "int \<Rightarrow> int" where
  "dayOfEra days = days + 719468 - era days * 146097"

definition yearOfEra :: "int \<Rightarrow> int" where
  "yearOfEra days =
     (dayOfEra days - dayOfEra days div 1460 + dayOfEra days div 36524
        - dayOfEra days div 146096) div 365"

definition dayOfYear :: "int \<Rightarrow> int" where
  "dayOfYear days =
     dayOfEra days - (365 * yearOfEra days + yearOfEra days div 4 - yearOfEra days div 100)"

definition monthIndex :: "int \<Rightarrow> int" where
  "monthIndex days = (5 * dayOfYear days + 2) div 153"

definition civil_day :: "int \<Rightarrow> int" where
  "civil_day days = dayOfYear days - (153 * monthIndex days + 2) div 5 + 1"

definition civil_month :: "int \<Rightarrow> int" where
  "civil_month days = (if monthIndex days < 10 then monthIndex days + 3 else monthIndex days - 9)"

definition civil_year :: "int \<Rightarrow> int" where
  "civil_year days = yearOfEra days + era days * 400 + (if civil_month days \<le> 2 then 1 else 0)"

definition dateParts :: "date \<Rightarrow> int \<times> int \<times> int" where
  "dateParts t =
     (civil_year (t div 86400000), civil_month (t div 86400000), civil_day (t div 86400000))"

definition digit :: "int \<Rightarrow> char" where
  "digit n = ''0123456789'' ! nat (n mod 10)"

text \<open>A number in 0..9999 in decimal, with zeros in front up to the width asked for.\<close>

definition decimal :: "int \<Rightarrow> string" where
  "decimal n =
     (if n \<ge> 1000 then [digit (n div 1000), digit (n div 100), digit (n div 10), digit n]
      else if n \<ge> 100 then [digit (n div 100), digit (n div 10), digit n]
      else if n \<ge> 10 then [digit (n div 10), digit n]
      else [digit n])"

definition insertPadded :: "int \<Rightarrow> nat \<Rightarrow> string option" where
  "insertPadded number width =
     (if number < 0 \<or> number > 9999 then None
      else Some (replicate (width - length (decimal number)) (CHR ''0'') @ decimal number))"

fun outputDateWithFormat :: "string \<Rightarrow> int \<times> int \<times> int \<Rightarrow> string option" where
  "outputDateWithFormat [] parts = Some []"
| "outputDateWithFormat [c] parts = (if c = CHR ''%'' then None else Some [c])"
| "outputDateWithFormat (c # e # fmt) (y, m, d) =
     (if c \<noteq> CHR ''%'' then map_option ((#) c) (outputDateWithFormat (e # fmt) (y, m, d))
      else case (if e = CHR ''Y'' then insertPadded y 4
                 else if e = CHR ''m'' then insertPadded m 2
                 else if e = CHR ''d'' then insertPadded d 2
                 else None) of
             None \<Rightarrow> None
           | Some s \<Rightarrow> map_option ((@) s) (outputDateWithFormat fmt (y, m, d)))"

definition dateToString :: "string \<Rightarrow> date \<Rightarrow> string option" where
  "dateToString fmt t = outputDateWithFormat fmt (dateParts t)"

text \<open>
  The key of every document of a \<^verbatim>\<open>$group\<close> stage whose key expression can
  fail: \<open>None\<close> as soon as one key fails.
\<close>

fun withKeys :: "('d \<Rightarrow> 'k option) \<Rightarrow> 'd list \<Rightarrow> ('k \<times> 'd) list option" where
  "withKeys key [] = Some []"
| "withKeys key (d # ds) =
     (case key d of
        None \<Rightarrow> None
      | Some k \<Rightarrow> map_option ((#) (k, d)) (withKeys key ds))"

section \<open>The five pipelines\<close>

datatype error = StoreUnavailable | ConversionFailure

subsection \<open>dailySalesReport\<close>

text \<open>
  The document after the two \<^verbatim>\<open>$lookup\<close> stages and \<^verbatim>\<open>$addFields\<close>:
  the order, its \<^verbatim>\<open>items\<close> (order items whose \<^verbatim>\<open>order_id\<close> is the order's
  \<^verbatim>\<open>_id\<close>) and its \<^verbatim>\<open>customer\<close> (the first document of \<^verbatim>\<open>users\<close>
  whose \<^verbatim>\<open>_id\<close> is the order's \<^verbatim>\<open>customer_id\<close>, missing when there is none).
\<close>

record daily_doc =
  dd_order :: order
  dd_items :: "orderitem list"
  dd_customer :: "usr option"

text \<open>The object pushed to \<^verbatim>\<open>orders\<close>, and the group document of one day.\<close>

record sale =
  so_customer :: "string option"
  so_status :: string
  so_items :: "orderitem list"
  so_total :: real

record daily =
  d_date :: string
  d_orders :: "sale list"
  d_totalOrders :: nat
  d_totalSales :: real

definition dailySales_join :: "store \<Rightarrow> order \<Rightarrow> daily_doc" where
  "dailySales_join st x =
     \<lparr>dd_order = x,
      dd_items = lookup (orderitems st) oi_order_id (o_id x),
      dd_customer = arrayElemAt0 (lookup (users st) u_id (o_customer_id x))\<rparr>"

definition dailySales_joined :: "store \<Rightarrow> daily_doc list" where
  "dailySales_joined st =
     map (dailySales_join st)
       (filter (status_in [''completed'', ''pending'', ''confirmed'', ''cancelled'']) (orders st))"

definition dailySales_push :: "daily_doc \<Rightarrow> sale" where
  "dailySales_push d =
     \<lparr>so_customer = map_option u_name (dd_customer d),
      so_status = o_status (dd_order d),
      so_items = dd_items d,
      so_total = o_total_price (dd_order d)\<rparr>"

definition dailySales_group ::
  "summation \<Rightarrow> string \<times> (string \<times> daily_doc) list \<Rightarrow> daily" where
  "dailySales_group sum_op g =
     \<lparr>d_date = fst g,
      d_orders = map (\<lambda>kd. dailySales_push (snd kd)) (snd g),
      d_totalOrders = length (snd g),
      d_totalSales = sum_op (map (\<lambda>kd. o_total_price (dd_order (snd kd))) (snd g))\<rparr>"

definition dailySales_pipeline :: "summation \<Rightarrow> store \<Rightarrow> error + daily list" where
  "dailySales_pipeline sum_op st =
     (case withKeys (\<lambda>d. dateToString ''%Y-%m-%d'' (o_createdAt (dd_order d)))
             (dailySales_joined st) of
        None \<Rightarrow> Inl ConversionFailure
      | Some keyed \<Rightarrow>
          Inr (sortDesc d_date (map (dailySales_group sum_op) (groupBy fst keyed))))"

subsection \<open>monthlySalesReport\<close>

record monthly =
  m_id :: string
  m_totalOrders :: nat
  m_totalSales :: real

definition monthlySales_group ::
  "summation \<Rightarrow> string \<times> (string \<times> order) list \<Rightarrow> monthly" where
  "monthlySales_group sum_op g =
     \<lparr>m_id = fst g,
      m_totalOrders = length (snd g),
      m_totalSales = sum_op (map (\<lambda>kx. o_total_price (snd kx)) (snd g))\<rparr>"

definition monthlySales_pipeline :: "summation \<Rightarrow> store \<Rightarrow> error + monthly list" where
  "monthlySales_pipeline sum_op st =
     (case withKeys (\<lambda>x. dateToString ''%Y-%m'' (o_createdAt x))
             (filter (status_in [''completed'', ''pending'', ''confirmed'', ''cancelled''])
                (orders st)) of
        None \<Rightarrow> Inl ConversionFailure
      | Some keyed \<Rightarrow>
          Inr (sortDesc m_id (map (monthlySales_group sum_op) (groupBy fst keyed))))"

subsection \<open>orderStatusReport\<close>

text \<open>An order with its looked-up \<^verbatim>\<open>orderItems\<close>.\<close>

record order_doc =
  od_order :: order
  od_orderItems :: "orderitem list"

text \<open>
  The four accumulators that the order-status and the user-order report compute per
  group: \<^verbatim>\<open>totalOrders\<close>, \<^verbatim>\<open>totalItems\<close>, \<^verbatim>\<open>totalSpent\<close> and
  \<^verbatim>\<open>lastOrderDate\<close>. \<^verbatim>\<open>totalItems\<close> is
  \<^verbatim>\<open>{ $sum: { $sum: "$orderItems.quantity" } }\<close>: the accumulator over the
  documents of the group, of the expression over each document's array.
\<close>

record totals =
  t_totalOrders :: nat
  t_totalItems :: real
  t_totalSpent :: real
  t_lastOrderDate :: "date option"

definition totals_of :: "summation \<Rightarrow> order_doc list \<Rightarrow> totals" where
  "totals_of sum_op ds =
     \<lparr>t_totalOrders = length ds,
      t_totalItems = sum_op (map (\<lambda>d. sum_op (map oi_quantity (od_orderItems d))) ds),
      t_totalSpent = sum_op (map (\<lambda>d. o_total_price (od_order d)) ds),
      t_lastOrderDate = acc_max (map (\<lambda>d. o_createdAt (od_order d)) ds)\<rparr>"

text \<open>The customer summary that both reports return.\<close>

record summary =
  cs_customer_id :: objectid
  cs_fullName :: string
  cs_email :: string
  cs_phone :: string
  cs_totalOrders :: nat
  cs_totalItems :: real
  cs_totalSpent :: real
  cs_lastOrderDate :: "date option"

definition summary_of :: "customer \<Rightarrow> totals \<Rightarrow> summary" where
  "summary_of c t =
     \<lparr>cs_customer_id = c_id c,
      cs_fullName = c_fullName c,
      cs_email = c_email c,
      cs_phone = c_phone c,
      cs_totalOrders = t_totalOrders t,
      cs_totalItems = t_totalItems t,
      cs_totalSpent = t_totalSpent t,
      cs_lastOrderDate = t_lastOrderDate t\<rparr>"

definition orderStatus_join :: "store \<Rightarrow> order \<Rightarrow> order_doc" where
  "orderStatus_join st x =
     \<lparr>od_order = x, od_orderItems = lookup (orderitems st) oi_order_id (o_id x)\<rparr>"

definition orderStatus_joined :: "store \<Rightarrow> order_doc list" where
  "orderStatus_joined st =
     map (orderStatus_join st)
       (filter (status_in [''pending'', ''completed'', ''confirmed'', ''cancelled'']) (orders st))"

text \<open>First \<^verbatim>\<open>$group\<close>: by status and customer; a group is its key and its totals.\<close>

definition orderStatus_groups ::
  "summation \<Rightarrow> store \<Rightarrow> ((string \<times> objectid) \<times> totals) list" where
  "orderStatus_groups sum_op st =
     map (\<lambda>g. (fst g, totals_of sum_op (snd g)))
       (groupBy (\<lambda>d. (o_status (od_order d), o_customer_id (od_order d)))
          (orderStatus_joined st))"

text \<open>
  \<^verbatim>\<open>$lookup\<close> from \<^verbatim>\<open>customers\<close>, \<^verbatim>\<open>$unwind: "$customer"\<close> and
  \<^verbatim>\<open>$project\<close>: one document, status and summary, per group and matching customer.
\<close>

definition orderStatus_projected :: "summation \<Rightarrow> store \<Rightarrow> (string \<times> summary) list" where
  "orderStatus_projected sum_op st =
     map (\<lambda>gc. (fst (fst (fst gc)), summary_of (snd gc) (snd (fst gc))))
       (unwind (\<lambda>g. lookup (customers st) c_id (snd (fst g))) (orderStatus_groups sum_op st))"

text \<open>Second \<^verbatim>\<open>$group\<close>, by status, pushing the summaries; then \<^verbatim>\<open>$sort: { _id: 1 }\<close>.\<close>

definition orderStatus_pipeline ::
  "summation \<Rightarrow> store \<Rightarrow> (string \<times> summary list) list" where
  "orderStatus_pipeline sum_op st =
     sortAsc fst
       (map (\<lambda>g. (fst g, map snd (snd g))) (groupBy fst (orderStatus_projected sum_op st)))"

text \<open>
  \<^verbatim>\<open>report.forEach((r) => { formatted[r._id] = r.users; })\<close> on an empty object.
\<close>

definition formatted :: "(string \<times> summary list) list \<Rightarrow> (string \<rightharpoonup> summary list)" where
  "formatted report = fold (\<lambda>r m. m(fst r \<mapsto> snd r)) report Map.empty"

subsection \<open>userOrderReport\<close>

text \<open>
  Here \<^verbatim>\<open>$lookup\<close> has the array \<^verbatim>\<open>items\<close> as its local field and the item's
  \<^verbatim>\<open>_id\<close> as its foreign field.
\<close>

definition userOrder_join :: "store \<Rightarrow> order \<Rightarrow> order_doc" where
  "userOrder_join st x =
     \<lparr>od_order = x, od_orderItems = lookup_array (orderitems st) oi_id (o_items x)\<rparr>"

definition userOrder_joined :: "store \<Rightarrow> order_doc list" where
  "userOrder_joined st =
     map (userOrder_join st) (filter (status_in [''completed'', ''confirmed'']) (orders st))"

definition userOrder_groups :: "summation \<Rightarrow> store \<Rightarrow> (objectid \<times> totals) list" where
  "userOrder_groups sum_op st =
     map (\<lambda>g. (fst g, totals_of sum_op (snd g)))
       (groupBy (\<lambda>d. o_customer_id (od_order d)) (userOrder_joined st))"

definition userOrder_pipeline :: "summation \<Rightarrow> store \<Rightarrow> summary list" where
  "userOrder_pipeline sum_op st =
     sortDesc cs_totalSpent
       (map (\<lambda>gc. summary_of (snd gc) (snd (fst gc)))
          (unwind (\<lambda>g. lookup (customers st) c_id (fst g)) (userOrder_groups sum_op st)))"

subsection \<open>userProductReport\<close>

record product_row =
  p_id :: string
  p_product_id :: "string option"
  p_name :: "bson option"
  p_category :: "bson option"
  p_unit_price :: "real option"
  p_quantity :: real
  p_total_price :: real

text \<open>The same match and join as the user-order report, then \<^verbatim>\<open>$unwind: "$orderItems"\<close>.\<close>

definition userProduct_unwound :: "store \<Rightarrow> (order_doc \<times> orderitem) list" where
  "userProduct_unwound st = unwind od_orderItems (userOrder_joined st)"

definition userProduct_group ::
  "summation \<Rightarrow> string \<times> (order_doc \<times> orderitem) list \<Rightarrow> product_row" where
  "userProduct_group sum_op g =
     \<lparr>p_id = fst g,
      p_product_id = acc_first (map (\<lambda>di. oi_product_id (snd di)) (snd g)),
      p_name = Option.bind (acc_first (snd g)) (\<lambda>di. orderitem_field (snd di) ''name''),
      p_category = Option.bind (acc_first (snd g)) (\<lambda>di. orderitem_field (snd di) ''category''),
      p_unit_price = acc_first (map (\<lambda>di. oi_unit_price (snd di)) (snd g)),
      p_quantity = sum_op (map (\<lambda>di. oi_quantity (snd di)) (snd g)),
      p_total_price = sum_op (map (\<lambda>di. oi_total_price (snd di)) (snd g))\<rparr>"

definition userProduct_pipeline :: "summation \<Rightarrow> store \<Rightarrow> product_row list" where
  "userProduct_pipeline sum_op st =
     sortDesc p_quantity
       (map (userProduct_group sum_op)
          (groupBy (\<lambda>di. oi_product_id (snd di)) (userProduct_unwound st)))"

section \<open>The request handlers\<close>

text \<open>
  Modelled from the spec: the authentication middleware that sets \<^verbatim>\<open>req.user\<close> is
  not among the sources. The caller is what the handlers read of it: \<^verbatim>\<open>req.user\<close>
  may be absent, and its \<^verbatim>\<open>is_admin\<close> and \<^verbatim>\<open>role\<close> are JavaScript values.
  A value is falsy when it is \<^verbatim>\<open>undefined\<close>, \<^verbatim>\<open>null\<close>, \<^verbatim>\<open>false\<close>,
  zero or the empty string (a number is the real that a double denotes; NaN is left out).
\<close>

datatype jsval = JUndefined | JNull | JBool bool | JNum real | JStr string | JObject

fun truthy :: "jsval \<Rightarrow> bool" where
  "truthy JUndefined = False"
| "truthy JNull = False"
| "truthy (JBool b) = b"
| "truthy (JNum n) = (n \<noteq> 0)"
| "truthy (JStr s) = (s \<noteq> [])"
| "truthy JObject = True"

record authuser =
  is_admin :: jsval
  role :: jsval

record request =
  user :: "authuser option"

text \<open>
  The response: \<^verbatim>\<open>res.status(n).json(body)\<close>, with status 200 when the handler
  sets none. The three bodies are \<^verbatim>\<open>{ success: true, report }\<close>,
  \<^verbatim>\<open>{ error: msg }\<close> and \<^verbatim>\<open>{ message: msg }\<close>.
\<close>

datatype 'p body =
    is_SuccessBody: SuccessBody 'p
  | is_ErrorBody: ErrorBody string
  | is_MessageBody: MessageBody string

record 'p response =
  status :: nat
  body :: "'p body"

text \<open>
  The world a handler runs in: the database, whether it can be reached, and how many
  queries have been sent to it. \<^verbatim>\<open>Order.aggregate\<close> sends one query; it rejects
  when the database cannot be reached or the pipeline fails, and it writes nothing.
\<close>

record world =
  db :: store
  reachable :: bool
  queries :: nat

definition Order_aggregate :: "(store \<Rightarrow> error + 'p) \<Rightarrow> world \<Rightarrow> (error + 'p) \<times> world" where
  "Order_aggregate pipeline w =
     (if reachable w then pipeline (db w) else Inl StoreUnavailable,
      w\<lparr>queries := Suc (queries w)\<rparr>)"

text \<open>\<^verbatim>\<open>req.user?.is_admin\<close>\<close>

definition optional_is_admin :: "request \<Rightarrow> jsval" where
  "optional_is_admin req = (case user req of None \<Rightarrow> JUndefined | Some u \<Rightarrow> is_admin u)"

text \<open>
  The five handlers have one shape: the two admin checks, the aggregation inside
  \<^verbatim>\<open>try\<close>, and \<^verbatim>\<open>catch\<close> answering 500 with the handler's own message.
  \<open>finish\<close> is what the handler does with the aggregation's result before it answers.
  Reading \<^verbatim>\<open>req.user.role\<close> of an absent user would throw into \<^verbatim>\<open>catch\<close>;
  the first check has answered by then.
\<close>

definition report_handler ::
  "string \<Rightarrow> (store \<Rightarrow> error + 'r) \<Rightarrow> ('r \<Rightarrow> 'p) \<Rightarrow> request \<Rightarrow> world \<Rightarrow> 'p response \<times> world" where
  "report_handler catch_message pipeline finish req w =
     (if \<not> truthy (optional_is_admin req)
      then (\<lparr>status = 403, body = ErrorBody ''Access denied''\<rparr>, w)
      else case user req of
        None \<Rightarrow> (\<lparr>status = 500, body = ErrorBody catch_message\<rparr>, w)
      | Some u \<Rightarrow>
          if role u \<noteq> JStr ''admin''
          then (\<lparr>status = 403, body = MessageBody ''Forbidden''\<rparr>, w)
          else (case Order_aggregate pipeline w of
                  (Inr report, w') \<Rightarrow> (\<lparr>status = 200, body = SuccessBody (finish report)\<rparr>, w')
                | (Inl err, w') \<Rightarrow> (\<lparr>status = 500, body = ErrorBody catch_message\<rparr>, w')))"

definition dailySalesReport ::
  "summation \<Rightarrow> request \<Rightarrow> world \<Rightarrow> daily list response \<times> world" where
  "dailySalesReport sum_op =
     report_handler ''Report error'' (dailySales_pipeline sum_op) (\<lambda>report. report)"

definition monthlySalesReport ::
  "summation \<Rightarrow> request \<Rightarrow> world \<Rightarrow> monthly list response \<times> world" where
  "monthlySalesReport sum_op =
     report_handler ''Failed to generate monthly sales report'' (monthlySales_pipeline sum_op)
       (\<lambda>report. report)"

definition orderStatusReport ::
  "summation \<Rightarrow> request \<Rightarrow> world \<Rightarrow> (string \<rightharpoonup> summary list) response \<times> world" where
  "orderStatusReport sum_op =
     report_handler ''Failed to generate user report''
       (\<lambda>st. Inr (orderStatus_pipeline sum_op st)) formatted"

definition userOrderReport ::
  "summation \<Rightarrow> request \<Rightarrow> world \<Rightarrow> summary list response \<times> world" where
  "userOrderReport sum_op =
     report_handler ''Failed to generate user report''
       (\<lambda>st. Inr (userOrder_pipeline sum_op st)) (\<lambda>report. report)"

definition userProductReport ::
  "summation \<Rightarrow> request \<Rightarrow> world \<Rightarrow> product_row list response \<times> world" where
  "userProductReport sum_op =
     report_handler ''Failed to generate user product report''
       (\<lambda>st. Inr (userProduct_pipeline sum_op st)) (\<lambda>report. report)"

section \<open>An example database\<close>

text \<open>
  Five orders (the fourth with a status outside the schema's four), their items, one
  customer and one user. Customer 11 has neither a customer nor a user document. Every
  Number in it is a small integer, and so is every sum of them that a pipeline takes:
  doubles add these exactly, so on this database \<^verbatim>\<open>$sum\<close> is \<open>sum_list\<close>.
\<close>

definition example_store :: store where
  "example_store =
     \<lparr>orders =
        [\<lparr>o_id = 1, o_customer_id = 10, o_items = [100], o_total_price = 100,
           o_status = ''completed'', o_createdAt = 1709596800000\<rparr>,
         \<lparr>o_id = 2, o_customer_id = 11, o_items = [101, 102], o_total_price = 30,
           o_status = ''pending'', o_createdAt = 1709600400000\<rparr>,
         \<lparr>o_id = 3, o_customer_id = 10, o_items = [103], o_total_price = 45,
           o_status = ''confirmed'', o_createdAt = 1712275200000\<rparr>,
         \<lparr>o_id = 4, o_customer_id = 10, o_items = [], o_total_price = 7,
           o_status = ''delivered'', o_createdAt = 1712275200000\<rparr>,
         \<lparr>o_id = 5, o_customer_id = 11, o_items = [104], o_total_price = 8,
           o_status = ''completed'', o_createdAt = 1709596800000\<rparr>],
      orderitems =
        [\<lparr>oi_id = 100, oi_order_id = 1, oi_product_id = ''P1'', oi_quantity = 2,
           oi_unit_price = 50, oi_total_price = 100\<rparr>,
         \<lparr>oi_id = 101, oi_order_id = 2, oi_product_id = ''P2'', oi_quantity = 1,
           oi_unit_price = 10, oi_total_price = 10\<rparr>,
         \<lparr>oi_id = 102, oi_order_id = 2, oi_product_id = ''P1'', oi_quantity = 1,
           oi_unit_price = 20, oi_total_price = 20\<rparr>,
         \<lparr>oi_id = 103, oi_order_id = 3, oi_product_id = ''P1'', oi_quantity = 3,
           oi_unit_price = 15, oi_total_price = 45\<rparr>,
         \<lparr>oi_id = 104, oi_order_id = 5, oi_product_id = ''P2'', oi_quantity = 4,
           oi_unit_price = 2, oi_total_price = 8\<rparr>],
      customers =
        [\<lparr>c_id = 10, c_fullName = ''Alice'', c_email = ''alice@example.org'',
           c_phone = ''012''\<rparr>],
      users = [\<lparr>u_id = 10, u_name = ''Alice''\<rparr>]\<rparr>"

text \<open>What the daily and the monthly pipeline return on it.\<close>

definition example_daily :: "daily list" where
  "example_daily =
     [\<lparr>d_date = ''2024-04-05'',
           d_orders =
             [\<lparr>so_customer = Some ''Alice'', so_status = ''confirmed'',
                so_items =
                  [\<lparr>oi_id = 103, oi_order_id = 3, oi_product_id = ''P1'', oi_quantity = 3,
                     oi_unit_price = 15, oi_total_price = 45\<rparr>],
                so_total = 45\<rparr>],
           d_totalOrders = 1, d_totalSales = 45\<rparr>,
          \<lparr>d_date = ''2024-03-05'',
           d_orders =
             [\<lparr>so_customer = Some ''Alice'', so_status = ''completed'',
                so_items =
                  [\<lparr>oi_id = 100, oi_order_id = 1, oi_product_id = ''P1'', oi_quantity = 2,
                     oi_unit_price = 50, oi_total_price = 100\<rparr>],
                so_total = 100\<rparr>,
              \<lparr>so_customer = None, so_status = ''pending'',
                so_items =
                  [\<lparr>oi_id = 101, oi_order_id = 2, oi_product_id = ''P2'', oi_quantity = 1,
                     oi_unit_price = 10, oi_total_price = 10\<rparr>,
                   \<lparr>oi_id = 102, oi_order_id = 2, oi_product_id = ''P1'', oi_quantity = 1,
                     oi_unit_price = 20, oi_total_price = 20\<rparr>],
                so_total = 30\<rparr>,
              \<lparr>so_customer = None, so_status = ''completed'',
                so_items =
                  [\<lparr>oi_id = 104, oi_order_id = 5, oi_product_id = ''P2'', oi_quantity = 4,
                     oi_unit_price = 2, oi_total_price = 8\<rparr>],
                so_total = 8\<rparr>],
           d_totalOrders = 3, d_totalSales = 138\<rparr>]"


text \<open>What the order-status, the user-order and the user-product pipeline return on it.\<close>

definition example_status :: "(string \<times> summary list) list" where
  "example_status =
     [(''completed'',
       [\<lparr>cs_customer_id = 10, cs_fullName = ''Alice'', cs_email = ''alice@example.org'',
          cs_phone = ''012'', cs_totalOrders = 1, cs_totalItems = 2, cs_totalSpent = 100,
          cs_lastOrderDate = Some 1709596800000\<rparr>]),
      (''confirmed'',
       [\<lparr>cs_customer_id = 10, cs_fullName = ''Alice'', cs_email = ''alice@example.org'',
          cs_phone = ''012'', cs_totalOrders = 1, cs_totalItems = 3, cs_totalSpent = 45,
          cs_lastOrderDate = Some 1712275200000\<rparr>])]"

definition example_user_orders :: "summary list" where
  "example_user_orders =
     [\<lparr>cs_customer_id = 10, cs_fullName = ''Alice'', cs_email = ''alice@example.org'',
        cs_phone = ''012'', cs_totalOrders = 2, cs_totalItems = 5, cs_totalSpent = 145,
        cs_lastOrderDate = Some 1712275200000\<rparr>]"

definition example_products :: "product_row list" where
  "example_products =
     [\<lparr>p_id = ''P1'', p_product_id = Some ''P1'', p_name = None, p_category = None,
        p_unit_price = Some 50, p_quantity = 5, p_total_price = 145\<rparr>,
      \<lparr>p_id = ''P2'', p_product_id = Some ''P2'', p_name = None, p_category = None,
        p_unit_price = Some 2, p_quantity = 4, p_total_price = 8\<rparr>]"

text \<open>
  A database whose only order was created on 10000-01-01, a date that
  \<^verbatim>\<open>$dateToString\<close> refuses.
\<close>

definition late_store :: store where
  "late_store =
     \<lparr>orders =
        [\<lparr>o_id = 1, o_customer_id = 10, o_items = [], o_total_price = 5,
           o_status = ''pending'', o_createdAt = 253402300800000\<rparr>],
      orderitems = [], customers = [], users = []\<rparr>"

text \<open>
  Three callers: an admin, a user whose \<^verbatim>\<open>is_admin\<close> flag is set but whose role is
  not \<^verbatim>\<open>"admin"\<close>, and a request with no user. Two worlds, both reachable.
\<close>

definition admin_request :: request where
  "admin_request = \<lparr>user = Some \<lparr>is_admin = JBool True, role = JStr ''admin''\<rparr>\<rparr>"

definition staff_request :: request where
  "staff_request = \<lparr>user = Some \<lparr>is_admin = JBool True, role = JStr ''staff''\<rparr>\<rparr>"

definition anonymous_request :: request where
  "anonymous_request = \<lparr>user = None\<rparr>"

definition example_world :: world where
  "example_world = \<lparr>db = example_store, reachable = True, queries = 0\<rparr>"

definition late_world :: world where
  "late_world = \<lparr>db = late_store, reachable = True, queries = 0\<rparr>"

section \<open>Notation for the statements about the handlers\<close>

text \<open>The caller passes both checks.\<close>

abbreviation (input) admin_caller :: "request \<Rightarrow> bool" where
  "admin_caller req \<equiv> (\<exists>u. user req = Some u \<and> truthy (is_admin u) \<and> role u = JStr ''admin'')"

text \<open>
  The four responses a handler can give, for a handler whose \<^verbatim>\<open>catch\<close> answers
  with \<open>msg\<close>.
\<close>

abbreviation (input) envelope :: "string \<Rightarrow> 'p response \<Rightarrow> bool" where
  "envelope msg r \<equiv>
     (status r = 200 \<and> is_SuccessBody (body r))
     \<or> r = \<lparr>status = 403, body = ErrorBody ''Access denied''\<rparr>
     \<or> r = \<lparr>status = 403, body = MessageBody ''Forbidden''\<rparr>
     \<or> r = \<lparr>status = 500, body = ErrorBody msg\<rparr>"

text \<open>
  What a handler answers, and when: one of the four responses; 403 exactly to a caller
  who fails an admin check; 500 exactly to an admin caller whose aggregation fails,
  because the database cannot be reached or because the pipeline fails.
\<close>

abbreviation (input) answers ::
  "(request \<Rightarrow> world \<Rightarrow> 'p response \<times> world) \<Rightarrow> string \<Rightarrow> (store \<Rightarrow> error + 'r) \<Rightarrow>
     request \<Rightarrow> world \<Rightarrow> bool" where
  "answers handler msg pipeline req w \<equiv>
     envelope msg (fst (handler req w))
     \<and> (status (fst (handler req w)) = 403 \<longleftrightarrow> \<not> admin_caller req)
     \<and> (status (fst (handler req w)) = 500 \<longleftrightarrow>
          admin_caller req \<and> (\<not> reachable w \<or> isl (pipeline (db w))))"

text \<open>
  The admin gate: only an admin caller gets status 200; a caller without a truthy
  \<^verbatim>\<open>is_admin\<close> gets 403 and \<^verbatim>\<open>{ error: "Access denied" }\<close>; a caller with the
  flag but another role gets 403 and \<^verbatim>\<open>{ message: "Forbidden" }\<close>; both denials
  leave the world as it was, so no query has been sent; an admin caller's request sends
  one query.
\<close>

abbreviation (input) admin_gated ::
  "(request \<Rightarrow> world \<Rightarrow> 'p response \<times> world) \<Rightarrow> request \<Rightarrow> world \<Rightarrow> bool" where
  "admin_gated handler req w \<equiv>
     (status (fst (handler req w)) = 200 \<longrightarrow> admin_caller req)
     \<and> ((\<forall>u. user req = Some u \<longrightarrow> \<not> truthy (is_admin u)) \<longrightarrow>
          handler req w = (\<lparr>status = 403, body = ErrorBody ''Access denied''\<rparr>, w))
     \<and> (\<forall>u. user req = Some u \<and> truthy (is_admin u) \<and> role u \<noteq> JStr ''admin'' \<longrightarrow>
          handler req w = (\<lparr>status = 403, body = MessageBody ''Forbidden''\<rparr>, w))
     \<and> (admin_caller req \<longrightarrow> queries (snd (handler req w)) = Suc (queries w))"

section \<open>Facts about the stages\<close>

subsection \<open>Grouping\<close>

lemma groupBy_keys: "fst ` set (groupBy key ds) = key ` set ds"
  by (induction key ds rule: groupBy.induct) auto

lemma groupBy_group:
  "(k, g) \<in> set (groupBy key ds) \<Longrightarrow> g = filter (\<lambda>e. key e = k) ds"
proof (induction key ds rule: groupBy.induct)
  case (1 key)
  then show ?case by simp
next
  case (2 key d ds)
  show ?case
  proof (cases "k = key d")
    case True
    have "k \<notin> fst ` set (groupBy key (filter (\<lambda>e. key e \<noteq> key d) ds))"
      unfolding groupBy_keys using True by auto
    then have "(k, g) \<notin> set (groupBy key (filter (\<lambda>e. key e \<noteq> key d) ds))"
      by force
    with "2.prems" have "g = d # filter (\<lambda>e. key e = key d) ds"
      by simp
    with True show ?thesis by simp
  next
    case False
    with "2.prems" have "(k, g) \<in> set (groupBy key (filter (\<lambda>e. key e \<noteq> key d) ds))"
      by auto
    then have "g = filter (\<lambda>e. key e = k) (filter (\<lambda>e. key e \<noteq> key d) ds)"
      by (rule "2.IH")
    also have "\<dots> = filter (\<lambda>e. key e = k) ds"
      using False by (auto intro: filter_cong)
    finally show ?thesis using False by auto
  qed
qed

lemma groupBy_distinct: "distinct (map fst (groupBy key ds))"
proof (induction key ds rule: groupBy.induct)
  case (1 key)
  show ?case by simp
next
  case (2 key d ds)
  have "key d \<notin> fst ` set (groupBy key (filter (\<lambda>e. key e \<noteq> key d) ds))"
    unfolding groupBy_keys by auto
  with 2 show ?case by simp
qed

lemma groupBy_nonempty: "(k, g) \<in> set (groupBy key ds) \<Longrightarrow> g \<noteq> []"
proof -
  assume a: "(k, g) \<in> set (groupBy key ds)"
  then have "k \<in> fst ` set (groupBy key ds)" by force
  then have "k \<in> key ` set ds" by (simp only: groupBy_keys)
  then have "filter (\<lambda>e. key e = k) ds \<noteq> []" by (auto simp: filter_empty_conv)
  with groupBy_group[OF a] show ?thesis by simp
qed

lemma groupBy_length: "sum_list (map (\<lambda>g. length (snd g)) (groupBy key ds)) = length ds"
proof (induction key ds rule: groupBy.induct)
  case (1 key)
  show ?case by simp
next
  case (2 key d ds)
  have "length (filter (\<lambda>e. key e = key d) ds) + length (filter (\<lambda>e. key e \<noteq> key d) ds) = length ds"
    by (rule sum_length_filter_compl)
  with 2 show ?case by simp
qed

subsection \<open>Sorting\<close>

lemma mset_sortDesc: "mset (sortDesc f xs) = mset xs"
  by (simp add: sortDesc_def)

lemma set_sortDesc: "set (sortDesc f xs) = set xs"
  by (simp add: sortDesc_def)

lemma set_sortAsc: "set (sortAsc f xs) = set xs"
  by (simp add: sortAsc_def)


lemma sum_list_sortDesc:
  fixes g :: "'d \<Rightarrow> 'n::comm_monoid_add"
  shows "sum_list (map g (sortDesc f xs)) = sum_list (map g xs)"
proof -
  have "mset (map g (sortDesc f xs)) = mset (map g xs)"
    by (simp add: mset_sortDesc)
  then have "sum_mset (mset (map g (sortDesc f xs))) = sum_mset (mset (map g xs))"
    by (rule arg_cong)
  then show ?thesis by (simp only: sum_mset_sum_list)
qed

lemma distinct_map_sortDesc: "distinct (map g (sortDesc f xs)) = distinct (map g xs)"
proof -
  have "mset (map g (sortDesc f xs)) = mset (map g xs)"
    by (simp add: mset_sortDesc)
  then show ?thesis by (rule mset_eq_imp_distinct_iff)
qed

subsection \<open>Keys that can fail\<close>

lemma withKeys_snd: "withKeys key ds = Some kds \<Longrightarrow> map snd kds = ds"
  by (induction ds arbitrary: kds) (auto split: option.splits)

lemma withKeys_filter:
  "withKeys key ds = Some kds \<Longrightarrow>
     map snd (filter (\<lambda>kd. fst kd = k) kds) = filter (\<lambda>d. key d = Some k) ds"
  by (induction ds arbitrary: kds) (auto split: option.splits)

lemma withKeys_None: "withKeys key ds = None \<longleftrightarrow> (\<exists>d\<in>set ds. key d = None)"
  by (induction ds) (auto split: option.splits)

lemma withKeys_mem:
  "withKeys key ds = Some kds \<Longrightarrow> d \<in> set ds \<Longrightarrow> \<exists>k. key d = Some k \<and> (k, d) \<in> set kds"
  by (induction ds arbitrary: kds) (auto split: option.splits)

text \<open>A group of keyed documents holds exactly the documents with its key.\<close>

lemma keyed_group:
  assumes "withKeys key ds = Some kds" and "(k, g) \<in> set (groupBy fst kds)"
  shows "map snd g = filter (\<lambda>d. key d = Some k) ds"
proof -
  have "g = filter (\<lambda>kd. fst kd = k) kds"
    using assms(2) by (rule groupBy_group)
  then show ?thesis
    using withKeys_filter[OF assms(1)] by simp
qed

subsection \<open>Dates\<close>

lemma insertPadded_examples:
  "insertPadded 2024 4 = Some ''2024''"
  "insertPadded 987 4 = Some ''0987''"
  "insertPadded 0 4 = Some ''0000''"
  "insertPadded 3 2 = Some ''03''"
  "insertPadded 12 2 = Some ''12''"
  "insertPadded 10000 4 = None"
  "insertPadded (- 1) 4 = None"
  by (simp_all add: insertPadded_def decimal_def digit_def eval_nat_numeral)

lemmas civil_defs = dateParts_def civil_year_def civil_month_def civil_day_def monthIndex_def
  dayOfYear_def yearOfEra_def dayOfEra_def era_def

text \<open>The calendar at the epoch, before it, on leap days and at the ends of the range.\<close>

lemma dateParts_checks:
  "dateParts 0 = (1970, 1, 1)"
  "dateParts (- 1) = (1969, 12, 31)"
  "dateParts 951782400000 = (2000, 2, 29)"
  "dateParts 951868800000 = (2000, 3, 1)"
  "dateParts 1709251199999 = (2024, 2, 29)"
  "dateParts 253402300799999 = (9999, 12, 31)"
  "dateParts (- 62167219200000) = (0, 1, 1)"
  "dateParts (- 62167219200001) = (- 1, 12, 31)"
  by (simp_all add: civil_defs)

lemma dateParts_examples:
  "dateParts 1709596800000 = (2024, 3, 5)"
  "dateParts 1709600400000 = (2024, 3, 5)"
  "dateParts 1712275200000 = (2024, 4, 5)"
  by (simp_all add: civil_defs)

lemma day_examples:
  "dateToString ''%Y-%m-%d'' 1709596800000 = Some ''2024-03-05''"
  "dateToString ''%Y-%m-%d'' 1709600400000 = Some ''2024-03-05''"
  "dateToString ''%Y-%m-%d'' 1712275200000 = Some ''2024-04-05''"
  by (simp_all add: dateToString_def dateParts_examples insertPadded_def decimal_def digit_def)














lemma string_order_examples:
  "''2024-03-05'' \<le> ''2024-04-05''" "\<not> ''2024-04-05'' \<le> ''2024-03-05''"
  "''2024-03'' \<le> ''2024-04''" "\<not> ''2024-04'' \<le> ''2024-03''"
  by simp_all

section \<open>The daily report\<close>

lemma dailySales_pipeline_InrD:
  assumes "dailySales_pipeline sum_op st = Inr report"
  shows "\<exists>keyed. withKeys (\<lambda>d. dateToString ''%Y-%m-%d'' (o_createdAt (dd_order d)))
             (dailySales_joined st) = Some keyed
           \<and> report = sortDesc d_date (map (dailySales_group sum_op) (groupBy fst keyed))"
  using assms by (auto simp: dailySales_pipeline_def split: option.splits)

lemma status_in_iff: "status_in allowed x \<longleftrightarrow> o_status x \<in> set allowed"
  by (simp add: status_in_def)

text \<open>The documents of one day, read off the orders collection.\<close>

lemma dailySales_joined_filter:
  "filter (\<lambda>d. dateToString fmt (o_createdAt (dd_order d)) = Some k) (dailySales_joined st) =
     map (dailySales_join st)
       (filter (\<lambda>x. o_status x \<in> {''completed'', ''pending'', ''confirmed'', ''cancelled''}
                    \<and> dateToString fmt (o_createdAt x) = Some k) (orders st))"
proof -
  have "dd_order (dailySales_join st x) = x" for x
    by (simp add: dailySales_join_def)
  then show ?thesis
    by (simp add: dailySales_joined_def filter_map comp_def status_in_def conj_commute)
qed

lemma daily_bucket:
  assumes "dailySales_pipeline sum_op st = Inr report" and "b \<in> set report"
  defines "same_day \<equiv> filter (\<lambda>x. o_status x \<in> {''completed'', ''pending'', ''confirmed'', ''cancelled''}
                    \<and> dateToString ''%Y-%m-%d'' (o_createdAt x) = Some (d_date b)) (orders st)"
  shows "d_orders b = map (\<lambda>x. dailySales_push (dailySales_join st x)) same_day"
    and "d_totalOrders b = length same_day"
    and "d_totalSales b = sum_op (map o_total_price same_day)"
    and "same_day \<noteq> []"
proof -
  let ?key = "\<lambda>d. dateToString ''%Y-%m-%d'' (o_createdAt (dd_order d))"
  from dailySales_pipeline_InrD[OF assms(1)] obtain keyed where
    keyed: "withKeys ?key (dailySales_joined st) = Some keyed"
    and report: "report = sortDesc d_date (map (dailySales_group sum_op) (groupBy fst keyed))"
    by blast
  from assms(2) obtain g where g: "g \<in> set (groupBy fst keyed)"
    and b: "b = dailySales_group sum_op g"
    unfolding report set_sortDesc by auto
  have date: "d_date b = fst g" by (simp add: b dailySales_group_def)
  have "(fst g, snd g) \<in> set (groupBy fst keyed)" using g by simp
  note grp = keyed_group[OF keyed this] groupBy_nonempty[OF this]
  have docs: "map snd (snd g) = map (dailySales_join st) same_day"
    using grp(1) by (simp add: date same_day_def dailySales_joined_filter)
  have "d_orders b = map dailySales_push (map snd (snd g))"
    by (simp add: b dailySales_group_def)
  then show "d_orders b = map (\<lambda>x. dailySales_push (dailySales_join st x)) same_day"
    by (simp add: docs)
  have "d_totalOrders b = length (map snd (snd g))"
    by (simp add: b dailySales_group_def)
  then show "d_totalOrders b = length same_day"
    by (simp add: docs)
  have "d_totalSales b = sum_op (map (\<lambda>d. o_total_price (dd_order d)) (map snd (snd g)))"
    by (simp add: b dailySales_group_def comp_def)
  then show "d_totalSales b = sum_op (map o_total_price same_day)"
    by (simp add: docs comp_def dailySales_join_def)
  from grp(2) have "map snd (snd g) \<noteq> []" by simp
  then show "same_day \<noteq> []" by (simp add: docs)
qed

lemma length_filter_distinct_key:
  "distinct (map f xs) \<Longrightarrow> v \<in> f ` set xs \<Longrightarrow> length (filter (\<lambda>b. v = f b) xs) = 1"
proof (induction xs)
  case Nil
  then show ?case by simp
next
  case (Cons a xs)
  show ?case
  proof (cases "v = f a")
    case True
    with Cons.prems(1) have "filter (\<lambda>b. v = f b) xs = []"
      by (auto simp: filter_empty_conv)
    with True show ?thesis by simp
  next
    case False
    with Cons show ?thesis by auto
  qed
qed

lemma daily_dates_distinct:
  assumes "dailySales_pipeline sum_op st = Inr report"
  shows "distinct (map d_date report)"
proof -
  from dailySales_pipeline_InrD[OF assms] obtain keyed where
    report: "report = sortDesc d_date (map (dailySales_group sum_op) (groupBy fst keyed))"
    by blast
  have "map d_date (map (dailySales_group sum_op) (groupBy fst keyed)) =
      map fst (groupBy fst keyed)"
    by (simp add: dailySales_group_def)
  then show ?thesis
    unfolding report distinct_map_sortDesc by (simp only: groupBy_distinct)
qed

lemma daily_dates_cover:
  assumes "dailySales_pipeline sum_op st = Inr report"
    and "x \<in> set (orders st)"
    and "o_status x \<in> {''completed'', ''pending'', ''confirmed'', ''cancelled''}"
  shows "\<exists>b\<in>set report. dateToString ''%Y-%m-%d'' (o_createdAt x) = Some (d_date b)"
proof -
  let ?key = "\<lambda>d. dateToString ''%Y-%m-%d'' (o_createdAt (dd_order d))"
  from dailySales_pipeline_InrD[OF assms(1)] obtain keyed where
    keyed: "withKeys ?key (dailySales_joined st) = Some keyed"
    and report: "report = sortDesc d_date (map (dailySales_group sum_op) (groupBy fst keyed))"
    by blast
  have mem: "dailySales_join st x \<in> set (dailySales_joined st)"
    using assms(2,3) by (simp add: dailySales_joined_def status_in_def)
  from withKeys_mem[OF keyed mem] obtain k where
    k: "?key (dailySales_join st x) = Some k" and "(k, dailySales_join st x) \<in> set keyed"
    by blast
  then have "k \<in> fst ` set keyed" by force
  then have "k \<in> fst ` set (groupBy fst keyed)" by (simp only: groupBy_keys)
  then obtain g where g: "g \<in> set (groupBy fst keyed)" and "fst g = k" by auto
  then have "d_date (dailySales_group sum_op g) = k" by (simp add: dailySales_group_def)
  moreover have "dailySales_group sum_op g \<in> set report"
    unfolding report set_sortDesc using g by simp
  moreover have "dateToString ''%Y-%m-%d'' (o_createdAt x) = Some k"
    using k by (simp add: dailySales_join_def)
  ultimately show ?thesis by auto
qed

lemma daily_totalOrders_sum:
  assumes "dailySales_pipeline sum_op st = Inr report"
  shows "sum_list (map d_totalOrders report) =
     length (filter (\<lambda>x. o_status x \<in> {''completed'', ''pending'', ''confirmed'', ''cancelled''})
       (orders st))"
proof -
  let ?key = "\<lambda>d. dateToString ''%Y-%m-%d'' (o_createdAt (dd_order d))"
  from dailySales_pipeline_InrD[OF assms(1)] obtain keyed where
    keyed: "withKeys ?key (dailySales_joined st) = Some keyed"
    and report: "report = sortDesc d_date (map (dailySales_group sum_op) (groupBy fst keyed))"
    by blast
  have "sum_list (map d_totalOrders report) =
        sum_list (map d_totalOrders (map (dailySales_group sum_op) (groupBy fst keyed)))"
    unfolding report by (rule sum_list_sortDesc)
  also have "\<dots> = sum_list (map (\<lambda>g. length (snd g)) (groupBy fst keyed))"
    by (simp add: dailySales_group_def comp_def)
  also have "\<dots> = length keyed" by (rule groupBy_length)
  also have "\<dots> = length (map snd keyed)" by simp
  also have "\<dots> = length (dailySales_joined st)" by (simp only: withKeys_snd[OF keyed])
  also have "\<dots> = length (filter (\<lambda>x. o_status x \<in> {''completed'', ''pending'', ''confirmed'', ''cancelled''})
       (orders st))"
    by (simp add: dailySales_joined_def status_in_def[abs_def])
  finally show ?thesis .
qed

text \<open>The daily aggregation fails exactly when the date of a passing order has no string.\<close>

lemma dailySales_pipeline_fails_iff:
  "dailySales_pipeline sum_op st = Inl e \<longleftrightarrow>
     e = ConversionFailure \<and>
     (\<exists>x\<in>set (orders st).
        o_status x \<in> {''completed'', ''pending'', ''confirmed'', ''cancelled''}
        \<and> dateToString ''%Y-%m-%d'' (o_createdAt x) = None)"
proof -
  let ?key = "\<lambda>d. dateToString ''%Y-%m-%d'' (o_createdAt (dd_order d))"
  have "dailySales_pipeline sum_op st = Inl e \<longleftrightarrow>
      e = ConversionFailure \<and> withKeys ?key (dailySales_joined st) = None"
    by (auto simp: dailySales_pipeline_def split: option.splits)
  also have "withKeys ?key (dailySales_joined st) = None \<longleftrightarrow>
      (\<exists>x\<in>set (orders st).
        o_status x \<in> {''completed'', ''pending'', ''confirmed'', ''cancelled''}
        \<and> dateToString ''%Y-%m-%d'' (o_createdAt x) = None)"
    unfolding withKeys_None
    by (auto simp: dailySales_joined_def dailySales_join_def status_in_def)
  finally show ?thesis .
qed

lemma late_date: "dateToString ''%Y-%m-%d'' 253402300800000 = None"
proof -
  have "dateParts 253402300800000 = (10000, 1, 1)"
    by (simp add: civil_defs)
  then show ?thesis
    by (simp add: dateToString_def insertPadded_def)
qed

lemma late_store_fails: "dailySales_pipeline sum_list late_store = Inl ConversionFailure"
  unfolding dailySales_pipeline_fails_iff by (simp add: late_store_def late_date)

lemma example_daily_eval: "dailySales_pipeline sum_list example_store = Inr example_daily"
  by (simp add: dailySales_pipeline_def dailySales_joined_def dailySales_join_def status_in_def
      example_store_def example_daily_def day_examples lookup_def arrayElemAt0_def sortDesc_def
      dailySales_group_def dailySales_push_def)

text \<open>
  Claim C2. When the daily aggregation returns, every order that passes the status filter
  (status completed, pending, confirmed or cancelled) has exactly one bucket with its
  day, every bucket's \<^verbatim>\<open>totalOrders\<close> counts exactly the passing orders of its day,
  and the \<^verbatim>\<open>totalOrders\<close> of all returned buckets sum to the number of passing orders.
\<close>

theorem daily_buckets_partition_orders:
  assumes "dailySales_pipeline sum_op st = Inr report"
  shows "(\<forall>x\<in>set (orders st).
            o_status x \<in> {''completed'', ''pending'', ''confirmed'', ''cancelled''} \<longrightarrow>
            length (filter (\<lambda>b. dateToString ''%Y-%m-%d'' (o_createdAt x) = Some (d_date b)) report) = 1)
       \<and> (\<forall>b\<in>set report.
            d_totalOrders b =
              length (filter (\<lambda>x. o_status x \<in> {''completed'', ''pending'', ''confirmed'', ''cancelled''}
                                    \<and> dateToString ''%Y-%m-%d'' (o_createdAt x) = Some (d_date b))
                        (orders st)))
       \<and> sum_list (map d_totalOrders report) =
            length (filter (\<lambda>x. o_status x \<in> {''completed'', ''pending'', ''confirmed'', ''cancelled''})
                      (orders st))"
proof (intro conjI ballI impI)
  fix x
  assume x: "x \<in> set (orders st)"
    "o_status x \<in> {''completed'', ''pending'', ''confirmed'', ''cancelled''}"
  from daily_dates_cover[OF assms x] obtain b where
    "b \<in> set report" "dateToString ''%Y-%m-%d'' (o_createdAt x) = Some (d_date b)"
    by blast
  then have "dateToString ''%Y-%m-%d'' (o_createdAt x) \<in> (\<lambda>b. Some (d_date b)) ` set report"
    by auto
  moreover have "distinct (map (\<lambda>b. Some (d_date b)) report)"
    using daily_dates_distinct[OF assms] by (simp add: distinct_map inj_on_def)
  ultimately show
    "length (filter (\<lambda>b. dateToString ''%Y-%m-%d'' (o_createdAt x) = Some (d_date b)) report) = 1"
    by (rule length_filter_distinct_key[rotated])
next
  fix b
  assume "b \<in> set report"
  then show "d_totalOrders b =
      length (filter (\<lambda>x. o_status x \<in> {''completed'', ''pending'', ''confirmed'', ''cancelled''}
                            \<and> dateToString ''%Y-%m-%d'' (o_createdAt x) = Some (d_date b))
                (orders st))"
    by (rule daily_bucket(2)[OF assms])
next
  show "sum_list (map d_totalOrders report) =
      length (filter (\<lambda>x. o_status x \<in> {''completed'', ''pending'', ''confirmed'', ''cancelled''})
                (orders st))"
    by (rule daily_totalOrders_sum[OF assms])
qed

theorem daily_buckets_partition_orders_witness:
  "dailySales_pipeline sum_list example_store = Inr example_daily
   \<and> length (filter (\<lambda>b. dateToString ''%Y-%m-%d'' 1709600400000 = Some (d_date b))
         example_daily) = 1
   \<and> d_totalOrders (example_daily ! 1) = 3
   \<and> sum_list (map d_totalOrders example_daily) = 4"
proof -
  note t = daily_buckets_partition_orders[OF example_daily_eval]
  from t have "length (filter (\<lambda>b. dateToString ''%Y-%m-%d'' 1709600400000 = Some (d_date b))
         example_daily) = 1"
    by (simp add: example_store_def)
  moreover from t have "d_totalOrders (example_daily ! 1) = 3"
    by (simp add: example_store_def example_daily_def day_examples)
  moreover from t have "sum_list (map d_totalOrders example_daily) = 4"
    by (simp add: example_store_def)
  ultimately show ?thesis
    using example_daily_eval by simp
qed

text \<open>
  Claim C6. When the daily aggregation returns, an order that passes the status filter
  and whose \<^verbatim>\<open>customer_id\<close> matches no document of the joined collection
  (\<^verbatim>\<open>users\<close>) is in the bucket of its day: the pushed record has no customer name,
  and the bucket's \<^verbatim>\<open>totalOrders\<close> and \<^verbatim>\<open>totalSales\<close> run over all passing
  orders of that day, this one included: \<^verbatim>\<open>totalOrders\<close> is their number and
  \<^verbatim>\<open>totalSales\<close> is the store's \<^verbatim>\<open>$sum\<close> of their \<^verbatim>\<open>total_price\<close>,
  taken in the order of the collection.
\<close>

theorem daily_keeps_order_without_customer:
  assumes "dailySales_pipeline sum_op st = Inr report"
    and "x \<in> set (orders st)"
    and "o_status x \<in> {''completed'', ''pending'', ''confirmed'', ''cancelled''}"
    and "\<forall>u\<in>set (users st). u_id u \<noteq> o_customer_id x"
  shows "\<exists>b\<in>set report.
           dateToString ''%Y-%m-%d'' (o_createdAt x) = Some (d_date b)
         \<and> \<lparr>so_customer = None, so_status = o_status x,
              so_items = filter (\<lambda>i. oi_order_id i = o_id x) (orderitems st),
              so_total = o_total_price x\<rparr> \<in> set (d_orders b)
         \<and> d_totalOrders b =
              length (filter (\<lambda>y. o_status y \<in> {''completed'', ''pending'', ''confirmed'', ''cancelled''}
                    \<and> dateToString ''%Y-%m-%d'' (o_createdAt y) = dateToString ''%Y-%m-%d'' (o_createdAt x))
                 (orders st))
         \<and> d_totalSales b =
              sum_op (map o_total_price
                (filter (\<lambda>y. o_status y \<in> {''completed'', ''pending'', ''confirmed'', ''cancelled''}
                    \<and> dateToString ''%Y-%m-%d'' (o_createdAt y) = dateToString ''%Y-%m-%d'' (o_createdAt x))
                 (orders st)))"
proof -
  from daily_dates_cover[OF assms(1,2,3)] obtain b where
    b: "b \<in> set report" and day: "dateToString ''%Y-%m-%d'' (o_createdAt x) = Some (d_date b)"
    by blast
  let ?same_day = "filter (\<lambda>y. o_status y \<in> {''completed'', ''pending'', ''confirmed'', ''cancelled''}
                    \<and> dateToString ''%Y-%m-%d'' (o_createdAt y) = Some (d_date b)) (orders st)"
  have "lookup (users st) u_id (o_customer_id x) = []"
    using assms(4) by (simp add: lookup_def filter_empty_conv)
  then have push: "dailySales_push (dailySales_join st x) =
      \<lparr>so_customer = None, so_status = o_status x,
       so_items = filter (\<lambda>i. oi_order_id i = o_id x) (orderitems st),
       so_total = o_total_price x\<rparr>"
    by (simp add: dailySales_push_def dailySales_join_def arrayElemAt0_def lookup_def)
  have "x \<in> set ?same_day"
    using assms(2,3) day by simp
  then have "dailySales_push (dailySales_join st x) \<in> set (d_orders b)"
    unfolding daily_bucket(1)[OF assms(1) b] by simp
  then have "\<lparr>so_customer = None, so_status = o_status x,
       so_items = filter (\<lambda>i. oi_order_id i = o_id x) (orderitems st),
       so_total = o_total_price x\<rparr> \<in> set (d_orders b)"
    by (simp only: push)
  moreover note daily_bucket(2,3)[OF assms(1) b]
  ultimately show ?thesis
    using b day by (intro bexI[of _ b]) simp_all
qed

theorem daily_keeps_order_without_customer_witness:
  "dailySales_pipeline sum_list example_store = Inr example_daily
   \<and> orders example_store ! 1 \<in> set (orders example_store)
   \<and> o_status (orders example_store ! 1) = ''pending''
   \<and> o_customer_id (orders example_store ! 1) \<notin> u_id ` set (users example_store)
   \<and> d_date (example_daily ! 1) = ''2024-03-05''
   \<and> \<lparr>so_customer = None, so_status = ''pending'',
        so_items = filter (\<lambda>i. oi_order_id i = 2) (orderitems example_store),
        so_total = 30\<rparr> \<in> set (d_orders (example_daily ! 1))
   \<and> d_totalOrders (example_daily ! 1) = 3
   \<and> d_totalSales (example_daily ! 1) = 138"
proof -
  have x: "orders example_store ! 1 \<in> set (orders example_store)"
    "o_status (orders example_store ! 1)
       \<in> {''completed'', ''pending'', ''confirmed'', ''cancelled''}"
    "\<forall>u\<in>set (users example_store). u_id u \<noteq> o_customer_id (orders example_store ! 1)"
    by (simp_all add: example_store_def)
  from daily_keeps_order_without_customer[OF example_daily_eval x]
  have "\<lparr>so_customer = None, so_status = ''pending'',
        so_items = filter (\<lambda>i. oi_order_id i = 2) (orderitems example_store),
        so_total = 30\<rparr> \<in> set (d_orders (example_daily ! 1))
      \<and> d_totalOrders (example_daily ! 1) = 3 \<and> d_totalSales (example_daily ! 1) = 138"
    by (simp add: example_store_def example_daily_def day_examples)
  then show ?thesis
    by (simp add: example_daily_eval) (simp add: example_store_def example_daily_def)
qed

section \<open>The monthly report\<close>



text \<open>The monthly aggregation fails in the same case.\<close>

lemma monthlySales_pipeline_fails_iff:
  "monthlySales_pipeline sum_op st = Inl e \<longleftrightarrow>
     e = ConversionFailure \<and>
     (\<exists>x\<in>set (orders st).
        o_status x \<in> {''completed'', ''pending'', ''confirmed'', ''cancelled''}
        \<and> dateToString ''%Y-%m'' (o_createdAt x) = None)"
proof -
  let ?key = "\<lambda>x. dateToString ''%Y-%m'' (o_createdAt x)"
  let ?matched = "filter (status_in [''completed'', ''pending'', ''confirmed'', ''cancelled''])
     (orders st)"
  have "monthlySales_pipeline sum_op st = Inl e \<longleftrightarrow>
      e = ConversionFailure \<and> withKeys ?key ?matched = None"
    by (auto simp: monthlySales_pipeline_def split: option.splits)
  also have "withKeys ?key ?matched = None \<longleftrightarrow>
      (\<exists>x\<in>set (orders st).
        o_status x \<in> {''completed'', ''pending'', ''confirmed'', ''cancelled''}
        \<and> dateToString ''%Y-%m'' (o_createdAt x) = None)"
    unfolding withKeys_None
    by (auto simp: status_in_def)
  finally show ?thesis .
qed




section \<open>The order-status report\<close>

lemma formatted_snoc: "formatted (report @ [r]) = (formatted report)(fst r \<mapsto> snd r)"
  by (simp add: formatted_def)

lemma formatted_Some: "formatted report s = Some us \<Longrightarrow> (s, us) \<in> set report"
proof (induction report rule: rev_induct)
  case Nil
  then show ?case by (simp add: formatted_def)
next
  case (snoc r report)
  show ?case
  proof (cases "s = fst r")
    case True
    with snoc.prems have "us = snd r" by (simp add: formatted_snoc)
    with True show ?thesis by simp
  next
    case False
    with snoc.prems have "formatted report s = Some us" by (simp add: formatted_snoc)
    with snoc.IH show ?thesis by simp
  qed
qed

lemma formatted_None_iff: "formatted report s = None \<longleftrightarrow> s \<notin> fst ` set report"
proof (induction report rule: rev_induct)
  case Nil
  show ?case by (simp add: formatted_def)
next
  case (snoc r report)
  then show ?case by (auto simp: formatted_snoc)
qed

lemma unwind_mem: "(d, e) \<in> set (unwind field docs) \<longleftrightarrow> d \<in> set docs \<and> e \<in> set (field d)"
  by (auto simp: unwind_def)

lemma orderStatus_groups_keys:
  "fst ` set (orderStatus_groups sum_op st) =
     (\<lambda>x. (o_status x, o_customer_id x)) `
       {x \<in> set (orders st). o_status x \<in> {''pending'', ''completed'', ''confirmed'', ''cancelled''}}"
proof -
  have "fst ` set (orderStatus_groups sum_op st) =
        fst ` set (groupBy (\<lambda>d. (o_status (od_order d), o_customer_id (od_order d)))
          (orderStatus_joined st))"
    by (force simp: orderStatus_groups_def)
  also have "\<dots> = (\<lambda>d. (o_status (od_order d), o_customer_id (od_order d))) ` set (orderStatus_joined st)"
    by (rule groupBy_keys)
  also have "\<dots> = (\<lambda>x. (o_status x, o_customer_id x)) `
       {x \<in> set (orders st). o_status x \<in> {''pending'', ''completed'', ''confirmed'', ''cancelled''}}"
    by (simp add: orderStatus_joined_def orderStatus_join_def status_in_def image_image)
  finally show ?thesis .
qed

text \<open>Where a projected document comes from: a group and a customer with the group's id.\<close>

lemma orderStatus_projected_mem:
  "(s, u) \<in> set (orderStatus_projected sum_op st) \<longleftrightarrow>
     (\<exists>g\<in>set (orderStatus_groups sum_op st). \<exists>c\<in>set (customers st).
        c_id c = snd (fst g) \<and> s = fst (fst g) \<and> u = summary_of c (snd g))"
proof
  assume "(s, u) \<in> set (orderStatus_projected sum_op st)"
  then obtain g c where
    gc: "(g, c) \<in> set (unwind (\<lambda>g. lookup (customers st) c_id (snd (fst g)))
                          (orderStatus_groups sum_op st))"
    and su: "s = fst (fst g)" "u = summary_of c (snd g)"
    by (auto simp: orderStatus_projected_def)
  from gc have "g \<in> set (orderStatus_groups sum_op st)" "c \<in> set (customers st)"
    "c_id c = snd (fst g)"
    by (simp_all add: unwind_mem lookup_def)
  with su show "\<exists>g\<in>set (orderStatus_groups sum_op st). \<exists>c\<in>set (customers st).
        c_id c = snd (fst g) \<and> s = fst (fst g) \<and> u = summary_of c (snd g)"
    by blast
next
  assume "\<exists>g\<in>set (orderStatus_groups sum_op st). \<exists>c\<in>set (customers st).
        c_id c = snd (fst g) \<and> s = fst (fst g) \<and> u = summary_of c (snd g)"
  then obtain g c where g: "g \<in> set (orderStatus_groups sum_op st)" and c: "c \<in> set (customers st)"
    and eq: "c_id c = snd (fst g)" "s = fst (fst g)" "u = summary_of c (snd g)"
    by blast
  let ?proj = "\<lambda>gc. (fst (fst (fst gc)), summary_of (snd gc) (snd (fst gc)))"
  have "(g, c) \<in> set (unwind (\<lambda>g. lookup (customers st) c_id (snd (fst g)))
                      (orderStatus_groups sum_op st))"
    using g c eq(1) by (simp add: unwind_mem lookup_def)
  then have "?proj (g, c) \<in> ?proj ` set (unwind (\<lambda>g. lookup (customers st) c_id (snd (fst g)))
      (orderStatus_groups sum_op st))"
    by (rule imageI)
  then show "(s, u) \<in> set (orderStatus_projected sum_op st)"
    by (simp add: orderStatus_projected_def eq)
qed

lemma orderStatus_pipeline_keys:
  "fst ` set (orderStatus_pipeline sum_op st) = fst ` set (orderStatus_projected sum_op st)"
proof -
  have "fst ` set (orderStatus_pipeline sum_op st) =
      fst ` set (groupBy fst (orderStatus_projected sum_op st))"
    by (force simp: orderStatus_pipeline_def set_sortAsc)
  then show ?thesis by (simp only: groupBy_keys)
qed

lemma orderStatus_pipeline_mem:
  assumes "(s, us) \<in> set (orderStatus_pipeline sum_op st)"
  shows "us = map snd (filter (\<lambda>r. fst r = s) (orderStatus_projected sum_op st))"
proof -
  from assms obtain g where g: "g \<in> set (groupBy fst (orderStatus_projected sum_op st))"
    and s: "s = fst g" and us: "us = map snd (snd g)"
    by (auto simp: orderStatus_pipeline_def set_sortAsc)
  from g have "(fst g, snd g) \<in> set (groupBy fst (orderStatus_projected sum_op st))" by simp
  from groupBy_group[OF this] show ?thesis by (simp add: s us)
qed

lemma orderStatus_value_lists:
  assumes "formatted (orderStatus_pipeline sum_op st) s = Some us" and "u \<in> set us"
  shows "\<exists>x\<in>set (orders st). \<exists>c\<in>set (customers st).
           o_status x = s \<and> c_id c = o_customer_id x \<and> cs_customer_id u = c_id c"
proof -
  from formatted_Some[OF assms(1)] have "(s, us) \<in> set (orderStatus_pipeline sum_op st)" .
  from orderStatus_pipeline_mem[OF this] assms(2)
  have "(s, u) \<in> set (orderStatus_projected sum_op st)" by auto
  then obtain g c where g: "g \<in> set (orderStatus_groups sum_op st)" and c: "c \<in> set (customers st)"
    and eq: "c_id c = snd (fst g)" "s = fst (fst g)" "u = summary_of c (snd g)"
    unfolding orderStatus_projected_mem by blast
  from g have "fst g \<in> fst ` set (orderStatus_groups sum_op st)" by simp
  then obtain x where "x \<in> set (orders st)" "fst g = (o_status x, o_customer_id x)"
    unfolding orderStatus_groups_keys by auto
  then have "x \<in> set (orders st)" "o_status x = s" "c_id c = o_customer_id x"
    using eq by simp_all
  moreover have "cs_customer_id u = c_id c"
    by (simp add: eq(3) summary_of_def)
  ultimately show ?thesis
    using c by blast
qed

text \<open>
  The join drops nothing else: a passing order whose customer exists has its status in the
  map, with a summary of that customer.
\<close>

lemma orderStatus_keeps_matched_groups:
  assumes "x \<in> set (orders st)"
    and "o_status x \<in> {''pending'', ''completed'', ''confirmed'', ''cancelled''}"
    and "c \<in> set (customers st)" and "c_id c = o_customer_id x"
  shows "\<exists>us. formatted (orderStatus_pipeline sum_op st) (o_status x) = Some us
           \<and> (\<exists>u\<in>set us. cs_customer_id u = c_id c)"
proof -
  have "(o_status x, o_customer_id x) \<in> fst ` set (orderStatus_groups sum_op st)"
    unfolding orderStatus_groups_keys using assms(1,2) by blast
  then obtain g where g: "g \<in> set (orderStatus_groups sum_op st)"
    and key: "fst g = (o_status x, o_customer_id x)" by auto
  let ?u = "summary_of c (snd g)"
  have proj: "(o_status x, ?u) \<in> set (orderStatus_projected sum_op st)"
    unfolding orderStatus_projected_mem using g key assms(3,4) by force
  then have "o_status x \<in> fst ` set (orderStatus_pipeline sum_op st)"
    unfolding orderStatus_pipeline_keys by force
  then obtain us where us: "formatted (orderStatus_pipeline sum_op st) (o_status x) = Some us"
    using formatted_None_iff[of "orderStatus_pipeline sum_op st" "o_status x"] by auto
  from orderStatus_pipeline_mem[OF formatted_Some[OF us]] proj
  have "?u \<in> set us" by force
  moreover have "cs_customer_id ?u = c_id c" by (simp add: summary_of_def)
  ultimately show ?thesis using us by blast
qed

lemma example_status_groups:
  "orderStatus_groups sum_list example_store =
     [((''completed'', 10), \<lparr>t_totalOrders = 1, t_totalItems = 2, t_totalSpent = 100,
         t_lastOrderDate = Some 1709596800000\<rparr>),
      ((''pending'', 11), \<lparr>t_totalOrders = 1, t_totalItems = 2, t_totalSpent = 30,
         t_lastOrderDate = Some 1709600400000\<rparr>),
      ((''confirmed'', 10), \<lparr>t_totalOrders = 1, t_totalItems = 3, t_totalSpent = 45,
         t_lastOrderDate = Some 1712275200000\<rparr>),
      ((''completed'', 11), \<lparr>t_totalOrders = 1, t_totalItems = 4, t_totalSpent = 8,
         t_lastOrderDate = Some 1709596800000\<rparr>)]"
  by (simp add: orderStatus_groups_def orderStatus_joined_def orderStatus_join_def status_in_def
      example_store_def lookup_def totals_of_def acc_max_def)

lemma example_status_eval: "orderStatus_pipeline sum_list example_store = example_status"
  by (simp add: orderStatus_pipeline_def orderStatus_projected_def example_status_groups
      unwind_def lookup_def summary_of_def sortAsc_def example_status_def)
    (simp add: example_store_def)

text \<open>
  Claim C1. In the order-status report, a customer reference that matches no document of
  \<^verbatim>\<open>customers\<close> appears in no value list of the output map: no summary of any
  status carries it. A status all of whose orders have such a reference is not a key of
  the map.
\<close>

theorem orderStatus_drops_unmatched_groups:
  "((\<forall>c\<in>set (customers st). c_id c \<noteq> cid) \<longrightarrow>
      (\<forall>s us. formatted (orderStatus_pipeline sum_op st) s = Some us \<longrightarrow>
         (\<forall>u\<in>set us. cs_customer_id u \<noteq> cid)))
   \<and> ((\<forall>x\<in>set (orders st). o_status x = s' \<longrightarrow>
          (\<forall>c\<in>set (customers st). c_id c \<noteq> o_customer_id x)) \<longrightarrow>
        formatted (orderStatus_pipeline sum_op st) s' = None)"
proof (intro conjI impI allI ballI)
  fix s us u
  assume no: "\<forall>c\<in>set (customers st). c_id c \<noteq> cid"
    and "formatted (orderStatus_pipeline sum_op st) s = Some us" "u \<in> set us"
  from orderStatus_value_lists[OF this(2,3)] obtain c where
    "c \<in> set (customers st)" "cs_customer_id u = c_id c" by blast
  with no show "cs_customer_id u \<noteq> cid" by auto
next
  assume no: "\<forall>x\<in>set (orders st). o_status x = s' \<longrightarrow>
          (\<forall>c\<in>set (customers st). c_id c \<noteq> o_customer_id x)"
  show "formatted (orderStatus_pipeline sum_op st) s' = None"
  proof (rule ccontr)
    assume "formatted (orderStatus_pipeline sum_op st) s' \<noteq> None"
    then obtain us where us: "formatted (orderStatus_pipeline sum_op st) s' = Some us" by auto
    from formatted_Some[OF us] have mem: "(s', us) \<in> set (orderStatus_pipeline sum_op st)" .
    then have "s' \<in> fst ` set (orderStatus_projected sum_op st)"
      unfolding orderStatus_pipeline_keys[symmetric] by force
    then obtain u where "(s', u) \<in> set (orderStatus_projected sum_op st)" by auto
    with orderStatus_pipeline_mem[OF mem] have "u \<in> set us" by force
    from orderStatus_value_lists[OF us this] no show False by blast
  qed
qed

theorem orderStatus_drops_unmatched_groups_witness:
  "11 \<notin> c_id ` set (customers example_store)
   \<and> formatted (orderStatus_pipeline sum_list example_store) ''completed'' =
       Some (snd (example_status ! 0))
   \<and> 11 \<notin> cs_customer_id ` set (snd (example_status ! 0))
   \<and> map o_customer_id (filter (\<lambda>x. o_status x = ''pending'') (orders example_store)) = [11]
   \<and> formatted (orderStatus_pipeline sum_list example_store) ''pending'' = None"
proof -
  note t = orderStatus_drops_unmatched_groups[of example_store 11 sum_list "''pending''"]
  have h1: "\<forall>c\<in>set (customers example_store). c_id c \<noteq> 11"
    by (simp add: example_store_def)
  have h2: "\<forall>x\<in>set (orders example_store). o_status x = ''pending'' \<longrightarrow>
      (\<forall>c\<in>set (customers example_store). c_id c \<noteq> o_customer_id x)"
    by (simp add: example_store_def)
  have f: "formatted (orderStatus_pipeline sum_list example_store) ''completed'' =
      Some (snd (example_status ! 0))"
    by (simp add: example_status_eval) (simp add: example_status_def formatted_def)
  from t h1 f have "\<forall>u\<in>set (snd (example_status ! 0)). cs_customer_id u \<noteq> 11"
    by blast
  then have "11 \<notin> cs_customer_id ` set (snd (example_status ! 0))"
    by auto
  moreover from t h2
  have "formatted (orderStatus_pipeline sum_list example_store) ''pending'' = None"
    by blast
  moreover have "11 \<notin> c_id ` set (customers example_store)"
    "map o_customer_id (filter (\<lambda>x. o_status x = ''pending'') (orders example_store)) = [11]"
    by (simp_all add: example_store_def)
  ultimately show ?thesis using f by blast
qed

section \<open>The user-order report\<close>


lemma userOrder_joined_filter:
  "filter (\<lambda>d. o_customer_id (od_order d) = k) (userOrder_joined st) =
     map (userOrder_join st)
       (filter (\<lambda>x. o_customer_id x = k \<and> o_status x \<in> {''completed'', ''confirmed''}) (orders st))"
proof -
  have "od_order (userOrder_join st x) = x" for x
    by (simp add: userOrder_join_def)
  then show ?thesis
    by (simp add: userOrder_joined_def filter_map comp_def status_in_def[abs_def] conj_commute)
qed

lemma userOrder_groups_mem:
  assumes "g \<in> set (userOrder_groups sum_op st)"
  shows "snd g = totals_of sum_op (map (userOrder_join st)
           (filter (\<lambda>x. o_customer_id x = fst g \<and> o_status x \<in> {''completed'', ''confirmed''})
              (orders st)))"
proof -
  from assms obtain h where h: "h \<in> set (groupBy (\<lambda>d. o_customer_id (od_order d)) (userOrder_joined st))"
    and g: "g = (fst h, totals_of sum_op (snd h))"
    by (auto simp: userOrder_groups_def)
  from h have "(fst h, snd h) \<in> set (groupBy (\<lambda>d. o_customer_id (od_order d)) (userOrder_joined st))"
    by simp
  from groupBy_group[OF this] show ?thesis
    by (simp add: g userOrder_joined_filter)
qed

lemma userOrder_pipeline_mem:
  assumes "r \<in> set (userOrder_pipeline sum_op st)"
  shows "\<exists>g\<in>set (userOrder_groups sum_op st). \<exists>c\<in>set (customers st).
           c_id c = fst g \<and> r = summary_of c (snd g)"
proof -
  from assms obtain g c where
    gc: "(g, c) \<in> set (unwind (\<lambda>g. lookup (customers st) c_id (fst g))
                          (userOrder_groups sum_op st))"
    and r: "r = summary_of c (snd g)"
    by (auto simp: userOrder_pipeline_def set_sortDesc)
  from gc have "g \<in> set (userOrder_groups sum_op st)" "c \<in> set (customers st)" "c_id c = fst g"
    by (simp_all add: unwind_mem lookup_def)
  with r show ?thesis by blast
qed

lemma userOrder_joined_ignores_other_statuses:
  assumes "\<And>x. x \<in> set (orders st) \<Longrightarrow> o_status x \<in> {''completed'', ''confirmed''} \<Longrightarrow> keep x"
  shows "userOrder_joined (st\<lparr>orders := filter keep (orders st)\<rparr>) = userOrder_joined st"
proof -
  have "filter (status_in [''completed'', ''confirmed'']) (filter keep (orders st)) =
        filter (status_in [''completed'', ''confirmed'']) (orders st)"
    unfolding filter_filter using assms by (intro filter_cong) (auto simp: status_in_def)
  moreover have "userOrder_join (st\<lparr>orders := filter keep (orders st)\<rparr>) = userOrder_join st"
    by (simp add: userOrder_join_def fun_eq_iff)
  ultimately show ?thesis
    by (simp add: userOrder_joined_def)
qed

lemma example_user_orders_eval: "userOrder_pipeline sum_list example_store = example_user_orders"
  by (simp add: userOrder_pipeline_def userOrder_groups_def userOrder_joined_def
      userOrder_join_def status_in_def example_store_def lookup_def lookup_array_def
      totals_of_def acc_max_def unwind_def summary_of_def sortDesc_def example_user_orders_def)

text \<open>
  Claim C4. Every summary of the user-order report counts in \<^verbatim>\<open>totalOrders\<close>
  exactly its customer's orders with status completed or confirmed; and the report is the
  same when every order with status pending or cancelled is taken out of the collection.
\<close>

theorem userOrder_counts_completed_confirmed_only:
  "(\<forall>r\<in>set (userOrder_pipeline sum_op st).
      cs_totalOrders r =
        length (filter (\<lambda>x. o_customer_id x = cs_customer_id r
                             \<and> o_status x \<in> {''completed'', ''confirmed''}) (orders st)))
   \<and> userOrder_pipeline sum_op
        (st\<lparr>orders := filter (\<lambda>x. o_status x \<notin> {''pending'', ''cancelled''}) (orders st)\<rparr>)
      = userOrder_pipeline sum_op st"
proof (intro conjI ballI)
  fix r
  assume "r \<in> set (userOrder_pipeline sum_op st)"
  from userOrder_pipeline_mem[OF this] obtain g c where
    g: "g \<in> set (userOrder_groups sum_op st)" and "c_id c = fst g" and r: "r = summary_of c (snd g)"
    by blast
  then have "cs_customer_id r = fst g" by (simp add: summary_of_def)
  moreover have "cs_totalOrders r = t_totalOrders (snd g)" by (simp add: r summary_of_def)
  ultimately show "cs_totalOrders r =
        length (filter (\<lambda>x. o_customer_id x = cs_customer_id r
                             \<and> o_status x \<in> {''completed'', ''confirmed''}) (orders st))"
    by (simp add: userOrder_groups_mem[OF g] totals_of_def)
next
  let ?st = "st\<lparr>orders := filter (\<lambda>x. o_status x \<notin> {''pending'', ''cancelled''}) (orders st)\<rparr>"
  have "userOrder_joined ?st = userOrder_joined st"
    by (rule userOrder_joined_ignores_other_statuses) auto
  then have "userOrder_groups sum_op ?st = userOrder_groups sum_op st"
    by (simp add: userOrder_groups_def)
  then show "userOrder_pipeline sum_op ?st = userOrder_pipeline sum_op st"
    by (simp add: userOrder_pipeline_def)
qed

theorem userOrder_counts_completed_confirmed_only_witness:
  "userOrder_pipeline sum_list example_store = example_user_orders
   \<and> cs_totalOrders (example_user_orders ! 0) = 2
   \<and> map o_status (filter (\<lambda>x. o_customer_id x = 10) (orders example_store)) =
        [''completed'', ''confirmed'', ''delivered'']
   \<and> userOrder_pipeline sum_list
        (example_store\<lparr>orders :=
           filter (\<lambda>x. o_status x \<notin> {''pending'', ''cancelled''}) (orders example_store)\<rparr>)
      = example_user_orders"
proof -
  note t = userOrder_counts_completed_confirmed_only[of sum_list example_store]
  from t have "cs_totalOrders (example_user_orders ! 0) = 2"
    unfolding example_user_orders_eval by (simp add: example_user_orders_def example_store_def)
  moreover from t have "userOrder_pipeline sum_list
        (example_store\<lparr>orders :=
           filter (\<lambda>x. o_status x \<notin> {''pending'', ''cancelled''}) (orders example_store)\<rparr>)
      = example_user_orders"
    by (simp only: example_user_orders_eval)
  moreover have "map o_status (filter (\<lambda>x. o_customer_id x = 10) (orders example_store)) =
        [''completed'', ''confirmed'', ''delivered'']"
    by (simp add: example_store_def)
  ultimately show ?thesis
    using example_user_orders_eval by simp
qed

section \<open>The user-product report\<close>

lemma userProduct_pipeline_mem:
  assumes "r \<in> set (userProduct_pipeline sum_op st)"
  shows "\<exists>g. r = userProduct_group sum_op g
           \<and> snd g = filter (\<lambda>di. oi_product_id (snd di) = fst g) (userProduct_unwound st)
           \<and> snd g \<noteq> []"
proof -
  from assms obtain g where
    g: "g \<in> set (groupBy (\<lambda>di. oi_product_id (snd di)) (userProduct_unwound st))"
    and r: "r = userProduct_group sum_op g"
    by (auto simp: userProduct_pipeline_def set_sortDesc)
  from g have "(fst g, snd g) \<in> set (groupBy (\<lambda>di. oi_product_id (snd di)) (userProduct_unwound st))"
    by simp
  from groupBy_group[OF this] groupBy_nonempty[OF this] r show ?thesis by blast
qed



lemma example_products_eval: "userProduct_pipeline sum_list example_store = example_products"
  by (simp add: userProduct_pipeline_def userProduct_unwound_def userOrder_joined_def
      userOrder_join_def status_in_def example_store_def lookup_array_def unwind_def
      userProduct_group_def acc_first_def orderitem_field_def sortDesc_def example_products_def)



lemma orderitem_no_name: "orderitem_field i ''name'' = None"
  by (simp add: orderitem_field_def)

lemma orderitem_no_category: "orderitem_field i ''category'' = None"
  by (simp add: orderitem_field_def)

text \<open>
  Claim C7. Every row of the user-product report has no \<^verbatim>\<open>name\<close> and no
  \<^verbatim>\<open>category\<close>: both are read off the order item, whose schema has neither path.
\<close>

theorem userProduct_name_category_absent:
  "\<forall>r\<in>set (userProduct_pipeline sum_op st). p_name r = None \<and> p_category r = None"
proof
  fix r
  assume "r \<in> set (userProduct_pipeline sum_op st)"
  from userProduct_pipeline_mem[OF this] obtain g where "r = userProduct_group sum_op g" by blast
  then show "p_name r = None \<and> p_category r = None"
    by (simp add: userProduct_group_def orderitem_no_name orderitem_no_category
        split: Option.bind_split)
qed

theorem userProduct_name_category_absent_witness:
  "length (userProduct_pipeline sum_list example_store) = 2
   \<and> p_name (userProduct_pipeline sum_list example_store ! 0) = None
   \<and> p_category (userProduct_pipeline sum_list example_store ! 0) = None
   \<and> p_name (userProduct_pipeline sum_list example_store ! 1) = None
   \<and> p_category (userProduct_pipeline sum_list example_store ! 1) = None"
proof -
  note t = userProduct_name_category_absent[of sum_list example_store]
  have len: "length (userProduct_pipeline sum_list example_store) = 2"
    by (simp add: example_products_eval example_products_def)
  then have "userProduct_pipeline sum_list example_store ! 0
      \<in> set (userProduct_pipeline sum_list example_store)"
    and "userProduct_pipeline sum_list example_store ! 1
      \<in> set (userProduct_pipeline sum_list example_store)"
    by simp_all
  with t len show ?thesis by blast
qed

section \<open>The handlers\<close>

lemma report_handler_no_admin:
  assumes "\<forall>u. user req = Some u \<longrightarrow> \<not> truthy (is_admin u)"
  shows "report_handler msg pipeline finish req w =
     (\<lparr>status = 403, body = ErrorBody ''Access denied''\<rparr>, w)"
proof -
  have "\<not> truthy (optional_is_admin req)"
    using assms by (simp add: optional_is_admin_def split: option.splits)
  then show ?thesis by (simp add: report_handler_def)
qed

lemma report_handler_wrong_role:
  assumes "user req = Some u" and "truthy (is_admin u)" and "role u \<noteq> JStr ''admin''"
  shows "report_handler msg pipeline finish req w =
     (\<lparr>status = 403, body = MessageBody ''Forbidden''\<rparr>, w)"
  using assms by (simp add: report_handler_def optional_is_admin_def)

lemma report_handler_admin:
  assumes "user req = Some u" and "truthy (is_admin u)" and "role u = JStr ''admin''"
  shows "report_handler msg pipeline finish req w =
     (case (if reachable w then pipeline (db w) else Inl StoreUnavailable) of
        Inr report \<Rightarrow> \<lparr>status = 200, body = SuccessBody (finish report)\<rparr>
      | Inl err \<Rightarrow> \<lparr>status = 500, body = ErrorBody msg\<rparr>,
      w\<lparr>queries := Suc (queries w)\<rparr>)"
  using assms
  by (simp add: report_handler_def optional_is_admin_def Order_aggregate_def split: sum.splits)

text \<open>The three ways a request can stand to the two checks.\<close>

lemma caller_cases:
  obtains (no_admin) "\<forall>u. user req = Some u \<longrightarrow> \<not> truthy (is_admin u)"
  | (wrong_role) u where "user req = Some u" "truthy (is_admin u)" "role u \<noteq> JStr ''admin''"
  | (admin) u where "user req = Some u" "truthy (is_admin u)" "role u = JStr ''admin''"
  by (cases "user req") auto

lemma report_handler_gate:
  "(status (fst (report_handler msg pipeline finish req w)) = 200 \<longrightarrow> admin_caller req)
   \<and> ((\<forall>u. user req = Some u \<longrightarrow> \<not> truthy (is_admin u)) \<longrightarrow>
        report_handler msg pipeline finish req w =
          (\<lparr>status = 403, body = ErrorBody ''Access denied''\<rparr>, w))
   \<and> (\<forall>u. user req = Some u \<and> truthy (is_admin u) \<and> role u \<noteq> JStr ''admin'' \<longrightarrow>
        report_handler msg pipeline finish req w =
          (\<lparr>status = 403, body = MessageBody ''Forbidden''\<rparr>, w))
   \<and> (admin_caller req \<longrightarrow>
        queries (snd (report_handler msg pipeline finish req w)) = Suc (queries w))"
proof (cases req rule: caller_cases)
  case no_admin
  then show ?thesis
    by (auto simp: report_handler_no_admin)
next
  case (wrong_role u)
  then show ?thesis
    by (auto simp: report_handler_wrong_role)
next
  case (admin u)
  then show ?thesis
    by (auto simp: report_handler_admin split: sum.splits)
qed

lemma report_handler_answers:
  "answers (report_handler msg pipeline finish) msg pipeline req w"
proof (cases req rule: caller_cases)
  case no_admin
  then show ?thesis
    by (auto simp: report_handler_no_admin)
next
  case (wrong_role u)
  then show ?thesis
    by (auto simp: report_handler_wrong_role)
next
  case (admin u)
  then show ?thesis
    by (auto simp: report_handler_admin split: sum.splits)
qed

lemmas handler_defs = dailySalesReport_def monthlySalesReport_def orderStatusReport_def
  userOrderReport_def userProductReport_def

lemma example_daily_response:
  "dailySalesReport sum_list admin_request example_world =
     (\<lparr>status = 200, body = SuccessBody example_daily\<rparr>, example_world\<lparr>queries := 1\<rparr>)"
  by (simp add: dailySalesReport_def report_handler_admin[of _ "\<lparr>is_admin = JBool True, role = JStr ''admin''\<rparr>"]
      admin_request_def example_world_def example_daily_eval)

lemma late_daily_response:
  "dailySalesReport sum_list admin_request late_world =
     (\<lparr>status = 500, body = ErrorBody ''Report error''\<rparr>, late_world\<lparr>queries := 1\<rparr>)"
  by (simp add: dailySalesReport_def report_handler_admin[of _ "\<lparr>is_admin = JBool True, role = JStr ''admin''\<rparr>"]
      admin_request_def late_world_def late_store_fails)

text \<open>
  Claim C8, as the specification states it, says that every answer is either
  \<^verbatim>\<open>{ success: true, report }\<close> or \<^verbatim>\<open>{ error: msg }\<close>. The second admin check
  answers \<^verbatim>\<open>{ message: "Forbidden" }\<close>, which is neither.
\<close>

theorem report_envelope_counterexample:
  "status (fst (dailySalesReport sum_list staff_request example_world)) = 403
   \<and> body (fst (dailySalesReport sum_list staff_request example_world)) = MessageBody ''Forbidden''
   \<and> \<not> is_SuccessBody (body (fst (dailySalesReport sum_list staff_request example_world)))
   \<and> \<not> is_ErrorBody (body (fst (dailySalesReport sum_list staff_request example_world)))"
  by (simp add: dailySalesReport_def report_handler_def optional_is_admin_def staff_request_def)

text \<open>
  Claim C8, amended. Every handler answers with status 200 and a success envelope, or
  with status 403 and \<^verbatim>\<open>{ error: "Access denied" }\<close>, or with status 403 and
  \<^verbatim>\<open>{ message: "Forbidden" }\<close>, or with status 500 and \<^verbatim>\<open>{ error: msg }\<close>
  for its own message. The status is 403 exactly when the caller fails an admin check,
  and 500 exactly when an admin caller's aggregation fails (the database cannot be
  reached, or the pipeline fails): forbidden and internal failure never share a status.
\<close>

theorem report_envelopes:
  "answers (dailySalesReport sum_op) ''Report error'' (dailySales_pipeline sum_op) req w
   \<and> answers (monthlySalesReport sum_op) ''Failed to generate monthly sales report''
       (monthlySales_pipeline sum_op) req w
   \<and> answers (orderStatusReport sum_op) ''Failed to generate user report''
       (\<lambda>st. Inr (orderStatus_pipeline sum_op st)) req w
   \<and> answers (userOrderReport sum_op) ''Failed to generate user report''
       (\<lambda>st. Inr (userOrder_pipeline sum_op st)) req w
   \<and> answers (userProductReport sum_op) ''Failed to generate user product report''
       (\<lambda>st. Inr (userProduct_pipeline sum_op st)) req w"
  unfolding handler_defs
  by (rule conjI[OF report_handler_answers conjI[OF report_handler_answers
        conjI[OF report_handler_answers conjI[OF report_handler_answers report_handler_answers]]]])

theorem report_envelopes_witness:
  "fst (dailySalesReport sum_list admin_request example_world) =
     \<lparr>status = 200, body = SuccessBody example_daily\<rparr>
   \<and> isl (dailySales_pipeline sum_list (db late_world))
   \<and> status (fst (dailySalesReport sum_list admin_request late_world)) = 500
   \<and> status (fst (dailySalesReport sum_list anonymous_request example_world)) = 403
   \<and> status (fst (dailySalesReport sum_list staff_request example_world)) = 403"
proof -
  have "status (fst (dailySalesReport sum_list anonymous_request example_world)) = 403"
    using report_envelopes[of sum_list anonymous_request example_world]
    by (simp add: anonymous_request_def)
  moreover have "status (fst (dailySalesReport sum_list staff_request example_world)) = 403"
    using report_envelopes[of sum_list staff_request example_world]
    by (simp add: staff_request_def)
  moreover have late: "isl (dailySales_pipeline sum_list (db late_world))"
    by (simp add: late_world_def late_store_fails)
  moreover have "status (fst (dailySalesReport sum_list admin_request late_world)) = 500"
    using report_envelopes[of sum_list admin_request late_world] late
    by (simp add: admin_request_def)
  ultimately show ?thesis
    by (simp add: example_daily_response)
qed

text \<open>
  Claim C10. Every handler answers 200 only to a caller whose user exists with a truthy
  \<^verbatim>\<open>is_admin\<close> and role \<^verbatim>\<open>"admin"\<close>. When the user is absent or
  \<^verbatim>\<open>is_admin\<close> is falsy it answers 403 with \<^verbatim>\<open>{ error: "Access denied" }\<close>;
  when \<^verbatim>\<open>is_admin\<close> is truthy and the role is not \<^verbatim>\<open>"admin"\<close> it answers
  403 with \<^verbatim>\<open>{ message: "Forbidden" }\<close>; in both cases the world is unchanged, so
  no query was sent.
\<close>

theorem reports_admin_gated:
  "admin_gated (dailySalesReport sum_op) req w
   \<and> admin_gated (monthlySalesReport sum_op) req w
   \<and> admin_gated (orderStatusReport sum_op) req w
   \<and> admin_gated (userOrderReport sum_op) req w
   \<and> admin_gated (userProductReport sum_op) req w"
  unfolding handler_defs
  by (rule conjI[OF report_handler_gate conjI[OF report_handler_gate
        conjI[OF report_handler_gate conjI[OF report_handler_gate report_handler_gate]]]])

theorem reports_admin_gated_witness:
  "dailySalesReport sum_list anonymous_request example_world =
     (\<lparr>status = 403, body = ErrorBody ''Access denied''\<rparr>, example_world)
   \<and> userProductReport sum_list staff_request example_world =
       (\<lparr>status = 403, body = MessageBody ''Forbidden''\<rparr>, example_world)
   \<and> status (fst (dailySalesReport sum_list admin_request example_world)) = 200
   \<and> user admin_request = Some \<lparr>is_admin = JBool True, role = JStr ''admin''\<rparr>
   \<and> queries (snd (dailySalesReport sum_list admin_request example_world)) =
       Suc (queries example_world)"
proof -
  have "dailySalesReport sum_list anonymous_request example_world =
     (\<lparr>status = 403, body = ErrorBody ''Access denied''\<rparr>, example_world)"
    using reports_admin_gated[of sum_list anonymous_request example_world]
    by (simp add: anonymous_request_def)
  moreover have "userProductReport sum_list staff_request example_world =
       (\<lparr>status = 403, body = MessageBody ''Forbidden''\<rparr>, example_world)"
    using reports_admin_gated[of sum_list staff_request example_world]
    by (simp add: staff_request_def)
  moreover have "queries (snd (dailySalesReport sum_list admin_request example_world)) =
      Suc (queries example_world)"
    using reports_admin_gated[of sum_list admin_request example_world]
    by (simp add: admin_request_def)
  ultimately show ?thesis
    by (simp add: example_daily_response) (simp add: admin_request_def)
qed

end
